theory Spec2Isabelle
  imports Complex_Main
begin

section \<open>JavaScript values\<close>

text \<open>
  A JavaScript number is a finite number, \<open>Infinity\<close>, \<open>-Infinity\<close> or \<open>NaN\<close>. The finite
  ones are modelled as \<^typ>\<open>real\<close>: rounding, and the overflow of a finite result to
  \<open>Infinity\<close>, are outside the model, and \<open>-0\<close> is not told from \<open>0\<close> (which could only
  show in the sign of a division by zero).
\<close>

datatype jsnum = Fin real | PInf | NInf | NaN

fun js_add :: "jsnum \<Rightarrow> jsnum \<Rightarrow> jsnum" where
  "js_add NaN b = NaN"
| "js_add a NaN = NaN"
| "js_add (Fin x) (Fin y) = Fin (x + y)"
| "js_add PInf NInf = NaN"
| "js_add NInf PInf = NaN"
| "js_add PInf b = PInf"
| "js_add a PInf = PInf"
| "js_add NInf b = NInf"
| "js_add a NInf = NInf"

fun js_mult :: "jsnum \<Rightarrow> jsnum \<Rightarrow> jsnum" where
  "js_mult NaN b = NaN"
| "js_mult a NaN = NaN"
| "js_mult (Fin x) (Fin y) = Fin (x * y)"
| "js_mult (Fin x) PInf = (if x = 0 then NaN else if 0 < x then PInf else NInf)"
| "js_mult (Fin x) NInf = (if x = 0 then NaN else if 0 < x then NInf else PInf)"
| "js_mult PInf (Fin y) = (if y = 0 then NaN else if 0 < y then PInf else NInf)"
| "js_mult NInf (Fin y) = (if y = 0 then NaN else if 0 < y then NInf else PInf)"
| "js_mult PInf PInf = PInf"
| "js_mult NInf NInf = PInf"
| "js_mult PInf NInf = NInf"
| "js_mult NInf PInf = NInf"

fun js_div :: "jsnum \<Rightarrow> jsnum \<Rightarrow> jsnum" where
  "js_div NaN b = NaN"
| "js_div a NaN = NaN"
| "js_div (Fin x) (Fin y) =
     (if y = 0 then (if x = 0 then NaN else if 0 < x then PInf else NInf) else Fin (x / y))"
| "js_div (Fin x) b = Fin 0"
| "js_div PInf (Fin y) = (if y < 0 then NInf else PInf)"
| "js_div NInf (Fin y) = (if y < 0 then PInf else NInf)"
| "js_div a b = NaN"

text \<open>\<open>a <= b\<close> and \<open>a < b\<close>: false as soon as an operand is \<open>NaN\<close>.\<close>

fun js_le :: "jsnum \<Rightarrow> jsnum \<Rightarrow> bool" where
  "js_le NaN b = False"
| "js_le a NaN = False"
| "js_le (Fin x) (Fin y) = (x \<le> y)"
| "js_le NInf b = True"
| "js_le a PInf = True"
| "js_le a b = False"

fun js_less :: "jsnum \<Rightarrow> jsnum \<Rightarrow> bool" where
  "js_less NaN b = False"
| "js_less a NaN = False"
| "js_less (Fin x) (Fin y) = (x < y)"
| "js_less PInf b = False"
| "js_less a NInf = False"
| "js_less a b = True"

text \<open>\<open>Math.max(0, x)\<close>, \<open>Math.cos(x)\<close> and \<open>Math.sin(x)\<close> for a number \<open>x\<close>.\<close>

fun max0 :: "jsnum \<Rightarrow> jsnum" where
  "max0 (Fin x) = Fin (max 0 x)"
| "max0 PInf = PInf"
| "max0 NInf = Fin 0"
| "max0 NaN = NaN"

fun js_cos :: "jsnum \<Rightarrow> jsnum" where
  "js_cos (Fin x) = Fin (cos x)"
| "js_cos a = NaN"

fun js_sin :: "jsnum \<Rightarrow> jsnum" where
  "js_sin (Fin x) = Fin (sin x)"
| "js_sin a = NaN"

text \<open>
  \<open>jsval\<close> is a value as JSON carries it (a number too large for a double parses to
  \<open>Infinity\<close>), with \<open>JUndefined\<close> for \<open>undefined\<close>, the value of a property that is
  missing.
\<close>

datatype jsval =
    JUndefined
  | JNull
  | JBool bool
  | JNum jsnum
  | JStr string
  | JArray "jsval list"
  | JObject "(string \<times> jsval) list"

text \<open>\<open>!!v\<close> and every boolean context: the falsy values are \<open>undefined\<close>, \<open>null\<close>,
  \<open>false\<close>, \<open>0\<close>, \<open>NaN\<close> and the empty string.\<close>

fun truthy :: "jsval \<Rightarrow> bool" where
  "truthy JUndefined = False"
| "truthy JNull = False"
| "truthy (JBool b) = b"
| "truthy (JNum x) = (x \<noteq> Fin 0 \<and> x \<noteq> NaN)"
| "truthy (JStr s) = (s \<noteq> [])"
| "truthy (JArray xs) = True"
| "truthy (JObject fs) = True"

text \<open>
  \<open>obj[key]\<close> on an object literal, in a runtime whose \<open>Object.prototype\<close> has its built-in
  properties only: an own property wins; a key that is not an own property is looked up on
  \<open>Object.prototype\<close>, every built-in property of which (a function, or for \<open>__proto__\<close>
  the prototype object itself) is truthy; any other key yields \<open>undefined\<close>.
\<close>

definition object_prototype_keys :: "string list" where
  "object_prototype_keys =
     [''constructor'', ''__proto__'', ''hasOwnProperty'', ''isPrototypeOf'',
      ''propertyIsEnumerable'', ''toLocaleString'', ''toString'', ''valueOf'',
      ''__defineGetter__'', ''__defineSetter__'', ''__lookupGetter__'', ''__lookupSetter__'']"

datatype 'a property = Own 'a | Inherited | Absent

definition get_property :: "(string \<times> 'a) list \<Rightarrow> string \<Rightarrow> 'a property" where
  "get_property obj key =
     (case map_of obj key of
        Some v \<Rightarrow> Own v
      | None \<Rightarrow> if key \<in> set object_prototype_keys then Inherited else Absent)"

text \<open>
  An object is listed by its own properties in the order in which JavaScript enumerates
  them (\<open>Object.entries\<close>, the spread, \<open>JSON.stringify\<close>): the keys that are array indices
  (a decimal numeral without leading zero, below \<open>2^32 - 1\<close>) first, in ascending numeric
  order, then the other keys in the order of their creation.
\<close>

definition decimal :: "string \<Rightarrow> nat" where
  "decimal s = foldl (\<lambda>n c. 10 * n + (of_char c - 48)) 0 s"

definition array_index :: "string \<Rightarrow> nat option" where
  "array_index s =
     (if s \<noteq> [] \<and> list_all (\<lambda>c. 48 \<le> (of_char c :: nat) \<and> (of_char c :: nat) \<le> 57) s \<and>
         (s = ''0'' \<or> hd s \<noteq> CHR ''0'') \<and> decimal s < 2 ^ 32 - 1
      then Some (decimal s) else None)"

text \<open>A new own property \<open>key\<close> (one the object does not have yet) takes its place in that
  order.\<close>

definition before_index :: "nat \<Rightarrow> string \<times> 'a \<Rightarrow> bool" where
  "before_index n p = (case array_index (fst p) of Some m \<Rightarrow> m < n | None \<Rightarrow> False)"

definition add_property :: "string \<Rightarrow> 'a \<Rightarrow> (string \<times> 'a) list \<Rightarrow> (string \<times> 'a) list" where
  "add_property key v obj =
     (case array_index key of
        None \<Rightarrow> obj @ [(key, v)]
      | Some n \<Rightarrow> takeWhile (before_index n) obj @ (key, v) # dropWhile (before_index n) obj)"

section \<open>The device state of \<open>server/server.js\<close>\<close>

text \<open>The readings of the server are numbers that start finite and are read over the
  reals.\<close>

record load =
  name :: string
  on :: bool
  voltage_V :: real
  current_A :: real
  power_W :: real
  energy_Wh :: real

record thresholds =
  highUsage_W :: real

record alert =
  alert_type :: string
  alert_loadId :: string
  alert_message :: string
  alert_timestamp :: int

text \<open>\<open>loads\<close> is the object \<open>state.loads\<close>, its own properties in the order of
  \<open>Object.entries\<close>.\<close>

record device_state =
  timestamp :: int
  loads :: "(string \<times> load) list"
  thresholds :: thresholds
  alerts :: "alert list"

text \<open>
  What a handler reads from outside the state: \<open>Date.now()\<close> in milliseconds, the successive
  results of \<open>Math.random()\<close> (\<open>math_random 0\<close> is the next one), and the conversion of a
  number to a string that a template literal applies.
\<close>

record js_env =
  date_now :: int
  math_random :: "nat \<Rightarrow> real"
  number_toString :: "real \<Rightarrow> string"

text \<open>The state at start-up; \<open>t0\<close> is \<open>Date.now()\<close> at that moment.\<close>

definition seed_loads :: "(string \<times> load) list" where
  "seed_loads =
     [(''lamp'', \<lparr>name = ''Desk Lamp'', on = True, voltage_V = 120, current_A = 0.25,
         power_W = 30, energy_Wh = 12.5\<rparr>),
      (''charger'', \<lparr>name = ''Phone Charger'', on = True, voltage_V = 5, current_A = 1.2,
         power_W = 6, energy_Wh = 3.4\<rparr>),
      (''fan'', \<lparr>name = ''Desk Fan'', on = False, voltage_V = 120, current_A = 0,
         power_W = 0, energy_Wh = 20.1\<rparr>)]"

definition seed_state :: "int \<Rightarrow> device_state" where
  "seed_state t0 =
     \<lparr>timestamp = t0 div 1000, loads = seed_loads,
      thresholds = \<lparr>highUsage_W = 50\<rparr>, alerts = []\<rparr>"

text \<open>
  The server process: the variable \<open>state\<close>, and the one part of the runtime that the
  handlers can change and later read, the property \<open>on\<close> of \<open>Object.prototype\<close>
  (\<open>None\<close> as long as there is none).
\<close>

record server =
  state :: device_state
  prototype_on :: "bool option"

definition start_server :: "int \<Rightarrow> server" where
  "start_server t0 = \<lparr>state = seed_state t0, prototype_on = None\<rparr>"

subsection \<open>\<open>updateFakeReadings\<close>\<close>

text \<open>The body of the \<open>for\<close> loop for one load that is on; \<open>r\<close> is the result of
  \<open>Math.random()\<close>.\<close>

definition wiggle :: "real \<Rightarrow> load \<Rightarrow> load" where
  "wiggle r l =
     (let noise = (r - 0.5) * 0.05;
          c = max 0 (current_A l * (1 + noise));
          p = voltage_V l * c
      in l\<lparr>current_A := c, power_W := p, energy_Wh := energy_Wh l + p / 3600\<rparr>)"

text \<open>The loop over \<open>Object.entries(state.loads)\<close>; a load that is off draws no random
  number.\<close>

fun update_loads :: "(nat \<Rightarrow> real) \<Rightarrow> (string \<times> load) list \<Rightarrow> (string \<times> load) list" where
  "update_loads rnd [] = []"
| "update_loads rnd ((k, l) # rest) =
     (if \<not> on l then (k, l\<lparr>current_A := 0, power_W := 0\<rparr>) # update_loads rnd rest
      else (k, wiggle (rnd 0) l) # update_loads (\<lambda>n. rnd (Suc n)) rest)"

datatype completion = Normal | TypeError

definition high_usage_alert :: "js_env \<Rightarrow> device_state \<Rightarrow> alert" where
  "high_usage_alert env s =
     \<lparr>alert_type = ''HIGH_USAGE'', alert_loadId = ''fan'',
      alert_message = ''Fan above '' @ number_toString env (highUsage_W (thresholds s)) @ '' W'',
      alert_timestamp = timestamp s\<rparr>"

text \<open>
  The function returns how it completed together with the state it leaves. \<open>fan\<close> is no
  property of \<open>Object.prototype\<close> and nothing in the program makes it one, so when
  \<open>state.loads\<close> has no own \<open>fan\<close> the lookup is \<open>undefined\<close> and reading \<open>fan.on\<close> throws,
  after the readings were updated and the alerts emptied. The loads have their own \<open>on\<close>,
  which hides whatever \<open>Object.prototype\<close> carries.
\<close>

definition updateFakeReadings :: "js_env \<Rightarrow> device_state \<Rightarrow> completion \<times> device_state" where
  "updateFakeReadings env s =
     (let s1 = s\<lparr>timestamp := date_now env div 1000\<rparr>;
          s2 = s1\<lparr>loads := update_loads (math_random env) (loads s1)\<rparr>;
          s3 = s2\<lparr>alerts := []\<rparr>
      in case get_property (loads s3) ''fan'' of
           Own fan \<Rightarrow>
             if on fan \<and> power_W fan > highUsage_W (thresholds s3)
             then (Normal, s3\<lparr>alerts := alerts s3 @ [high_usage_alert env s3]\<rparr>)
             else (Normal, s3)
         | Inherited \<Rightarrow> (Normal, s3)
         | Absent \<Rightarrow> (TypeError, s3))"

subsection \<open>The request handlers\<close>

datatype response =
    Json200_state device_state
  | Json200_ok device_state
  | Json400 string
  | Error500

text \<open>\<open>updateFakeReadings()\<close> followed by the answer \<open>ok\<close> builds from the new state. An
  exception that escapes a handler is answered by the framework with status 500.\<close>

definition run_cycle ::
  "(device_state \<Rightarrow> response) \<Rightarrow> js_env \<Rightarrow> server \<Rightarrow> response \<times> server" where
  "run_cycle ok env srv =
     (case updateFakeReadings env (state srv) of
        (Normal, s') \<Rightarrow> (ok s', srv\<lparr>state := s'\<rparr>)
      | (TypeError, s') \<Rightarrow> (Error500, srv\<lparr>state := s'\<rparr>))"

text \<open>\<open>GET /api/status\<close>.\<close>

definition get_status :: "js_env \<Rightarrow> server \<Rightarrow> response \<times> server" where
  "get_status env srv = run_cycle Json200_state env srv"

text \<open>
  The body of a control request as parsed from JSON: \<open>loadId\<close> as the property key it is
  used as, \<open>on\<close> as the JSON value of the field, \<open>JUndefined\<close> when the body has no field
  \<open>on\<close> (JSON carries no \<open>undefined\<close>).
\<close>

record control_body =
  body_loadId :: string
  body_on :: jsval

text \<open>
  \<open>const { loadId, on } = req.body\<close> reads \<open>req.body.on\<close>: the field of the body, and when
  the body has none, the \<open>on\<close> that the body inherits from \<open>Object.prototype\<close>.
\<close>

definition destructured_on :: "bool option \<Rightarrow> jsval \<Rightarrow> jsval" where
  "destructured_on proto_on v =
     (case v of
        JUndefined \<Rightarrow> (case proto_on of None \<Rightarrow> JUndefined | Some b \<Rightarrow> JBool b)
      | _ \<Rightarrow> v)"

text \<open>\<open>state.loads[loadId].on = !!on\<close> for an own property: the load keeps its place.\<close>

fun set_on :: "string \<Rightarrow> bool \<Rightarrow> (string \<times> load) list \<Rightarrow> (string \<times> load) list" where
  "set_on key b [] = []"
| "set_on key b ((k, l) # rest) =
     (if k = key then (k, l\<lparr>on := b\<rparr>) # rest else (k, l) # set_on key b rest)"

text \<open>
  \<open>POST /api/control\<close>. The guard is \<open>!state.loads[loadId]\<close>: it rejects a key whose lookup is
  falsy.
  \<^item> For an own key the flag of the load is set.
  \<^item> For the name of a built-in property of \<open>Object.prototype\<close> the lookup is truthy and
    the assignment writes \<open>on\<close> to an object of the runtime: to \<open>Object.prototype\<close> itself
    for \<open>__proto__\<close>, which is recorded; to a built-in function for the other names, which
    nothing reads.
  \<^item> For the key \<open>on\<close> the lookup is the \<open>on\<close> of \<open>Object.prototype\<close> when there is one;
    if that is \<open>true\<close> the guard passes, and the assignment to a property of the primitive
    \<open>true\<close> does nothing (the file is not in strict mode).
  \<^item> Any other key is answered with 400.
  In each case but the last the handler goes on to \<open>updateFakeReadings()\<close>.
\<close>

definition post_control :: "js_env \<Rightarrow> control_body \<Rightarrow> server \<Rightarrow> response \<times> server" where
  "post_control env body srv =
     (let loadId = body_loadId body;
          b = truthy (destructured_on (prototype_on srv) (body_on body))
      in case get_property (loads (state srv)) loadId of
           Own l \<Rightarrow>
             run_cycle Json200_ok env
               (srv\<lparr>state := (state srv)\<lparr>loads := set_on loadId b (loads (state srv))\<rparr>\<rparr>)
         | Inherited \<Rightarrow>
             run_cycle Json200_ok env
               (if loadId = ''__proto__'' then srv\<lparr>prototype_on := Some b\<rparr> else srv)
         | Absent \<Rightarrow>
             if loadId = ''on'' \<and> prototype_on srv = Some True
             then run_cycle Json200_ok env srv
             else (Json400 ''Unknown loadId'', srv))"

text \<open>The states the server process can be in: the one at start-up, and what a request
  leaves.\<close>

inductive reachable :: "server \<Rightarrow> bool" where
  start: "reachable (start_server t0)"
| status: "reachable srv \<Longrightarrow> reachable (snd (get_status env srv))"
| control: "reachable srv \<Longrightarrow> reachable (snd (post_control env body srv))"

section \<open>The client, \<open>src/App.jsx\<close>\<close>

subsection \<open>The status as the client parses it\<close>

text \<open>A load of the parsed status: its properties as JSON values, \<open>JUndefined\<close> for one
  that is missing. \<open>c_name\<close> is the name when it is a string.\<close>

record cload =
  c_name :: "string option"
  c_on :: jsval
  c_voltage_V :: jsval
  c_current_A :: jsval
  c_power_W :: jsval
  c_energy_Wh :: jsval

text \<open>The parsed response of \<open>GET /api/status\<close>; \<open>None\<close> is a property that is missing.
  \<open>st_highUsage_W\<close> is \<open>thresholds?.highUsage_W\<close>.\<close>

record status =
  st_timestamp :: int
  st_loads :: "(string \<times> cload) list option"
  st_highUsage_W :: "real option"
  st_alerts :: "alert list"
  st_totalPower_W :: jsval

text \<open>What \<open>res.json(state)\<close> sends for a device state. The server sends no aggregate
  field; \<open>agg\<close> stands for one that a server could supply.\<close>

definition load_json :: "load \<Rightarrow> cload" where
  "load_json l =
     \<lparr>c_name = Some (name l), c_on = JBool (on l), c_voltage_V = JNum (Fin (voltage_V l)),
      c_current_A = JNum (Fin (current_A l)), c_power_W = JNum (Fin (power_W l)),
      c_energy_Wh = JNum (Fin (energy_Wh l))\<rparr>"

definition snapshot :: "real option \<Rightarrow> device_state \<Rightarrow> status" where
  "snapshot agg s =
     \<lparr>st_timestamp = timestamp s,
      st_loads = Some (map (\<lambda>(k, l). (k, load_json l)) (loads s)),
      st_highUsage_W = Some (highUsage_W (thresholds s)),
      st_alerts = alerts s,
      st_totalPower_W = (case agg of None \<Rightarrow> JUndefined | Some x \<Rightarrow> JNum (Fin x))\<rparr>"

subsection \<open>Conversions of the language\<close>

text \<open>
  Three operations of the language are taken as they are, as parameters of the client's
  functions: the number a string converts to (\<open>NaN\<close> when it is no numeral), the number an
  array or an object converts to (\<open>None\<close> when the conversion throws a \<open>TypeError\<close>), and
  the result of \<open>+\<close> when an operand is a string, an array or an object (a concatenation of
  strings, or \<open>None\<close> when a conversion throws).
\<close>

record js_builtins =
  string_toNumber :: "string \<Rightarrow> jsnum"
  object_toNumber :: "jsval \<Rightarrow> jsnum option"
  plus_other :: "jsval \<Rightarrow> jsval \<Rightarrow> jsval option"

text \<open>The conversion to a number that \<open>Math.max\<close> applies to an argument.\<close>

definition ToNumber :: "js_builtins \<Rightarrow> jsval \<Rightarrow> jsnum option" where
  "ToNumber B v =
     (case v of
        JUndefined \<Rightarrow> Some NaN
      | JNull \<Rightarrow> Some (Fin 0)
      | JBool b \<Rightarrow> Some (Fin (if b then 1 else 0))
      | JNum x \<Rightarrow> Some x
      | JStr s \<Rightarrow> Some (string_toNumber B s)
      | _ \<Rightarrow> object_toNumber B v)"



text \<open>\<open>v || 0\<close>.\<close>

definition or_zero :: "jsval \<Rightarrow> jsval" where
  "or_zero v = (if truthy v then v else JNum (Fin 0))"

subsection \<open>Summary numbers\<close>




subsection \<open>\<open>PowerPieChart\<close>\<close>

record entry =
  e_id :: string
  e_name :: string
  e_power :: jsnum

text \<open>The commands of the SVG path that \<open>pathData\<close> joins into a string.\<close>

datatype path_cmd =
    MoveTo jsnum jsnum
  | LineTo jsnum jsnum
  | ArcTo jsnum jsnum nat nat nat jsnum jsnum
  | ClosePath

record slice =
  pathData :: "path_cmd list"
  color :: "string property"
  label :: string
  slice_value :: jsnum
  fraction :: jsnum
  key :: string

text \<open>\<open>Math.max(0, l.power_W || 0)\<close>; \<open>None\<close> when the conversion throws.\<close>

definition contribution :: "js_builtins \<Rightarrow> jsval \<Rightarrow> jsnum option" where
  "contribution B v = map_option max0 (ToNumber B (or_zero v))"

text \<open>The \<open>map\<close> over the entries that are left by the \<open>filter\<close>; it stops at the first
  exception.\<close>

fun map_entries :: "js_builtins \<Rightarrow> (string \<times> cload) list \<Rightarrow> entry list option" where
  "map_entries B [] = Some []"
| "map_entries B ((k, l) # rest) =
     (case contribution B (c_power_W l) of
        None \<Rightarrow> None
      | Some p \<Rightarrow>
          (case map_entries B rest of
             None \<Rightarrow> None
           | Some es \<Rightarrow>
               Some (\<lparr>e_id = k,
                      e_name = (case c_name l of None \<Rightarrow> k | Some n \<Rightarrow> if n = [] then k else n),
                      e_power = p\<rparr> # es)))"

definition pie_entries :: "js_builtins \<Rightarrow> (string \<times> cload) list \<Rightarrow> entry list option" where
  "pie_entries B loads_obj = map_entries B (filter (\<lambda>(k, l). k \<noteq> ''fan'') loads_obj)"

definition pie_total :: "entry list \<Rightarrow> jsnum" where
  "pie_total entries = foldl (\<lambda>s e. js_add s (e_power e)) (Fin 0) entries"

definition colors :: "(string \<times> string) list" where
  "colors = [(''lamp'', ''#f97316''), (''charger'', ''#22c55e'')]"

text \<open>The path of one slice from \<open>startAngle\<close> over \<open>angle\<close>, with \<open>cx = cy = 50\<close> and
  \<open>r = 40\<close>.\<close>

definition wedge :: "jsnum \<Rightarrow> jsnum \<Rightarrow> path_cmd list" where
  "wedge startAngle angle =
     (let endAngle = js_add startAngle angle;
          x1 = js_add (Fin 50) (js_mult (Fin 40) (js_cos startAngle));
          y1 = js_add (Fin 50) (js_mult (Fin 40) (js_sin startAngle));
          x2 = js_add (Fin 50) (js_mult (Fin 40) (js_cos endAngle));
          y2 = js_add (Fin 50) (js_mult (Fin 40) (js_sin endAngle));
          largeArc = (if js_less (Fin pi) angle then 1 else 0)
      in [MoveTo (Fin 50) (Fin 50), LineTo x1 y1, ArcTo (Fin 40) (Fin 40) 0 largeArc 1 x2 y2,
          ClosePath])"

text \<open>\<open>entries.map\<close> with the variable \<open>startAngle\<close> that each call advances. \<open>colors[e.id]\<close>
  is a lookup on an object literal; a colour that is \<open>undefined\<close> is replaced by the
  default. \<open>tot\<close> is the variable \<open>total\<close>.\<close>

fun make_slices :: "jsnum \<Rightarrow> jsnum \<Rightarrow> entry list \<Rightarrow> slice list" where
  "make_slices tot startAngle [] = []"
| "make_slices tot startAngle (e # es) =
     (let fraction = js_div (e_power e) tot;
          angle = js_mult (js_mult fraction (Fin pi)) (Fin 2);
          endAngle = js_add startAngle angle
      in \<lparr>pathData = wedge startAngle angle,
          color = (case get_property colors (e_id e) of
                     Absent \<Rightarrow> Own ''#e5e7eb'' | c \<Rightarrow> c),
          label = e_name e,
          slice_value = e_power e,
          fraction = fraction,
          key = e_id e\<rparr> # make_slices tot endAngle es)"

text \<open>What the component renders: the two placeholders, the chart with its slices and
  total, or nothing because an exception was thrown.\<close>

datatype pie_view =
    Waiting
  | Placeholder
  | Chart "slice list" jsnum
  | Threw

definition PowerPieChart :: "js_builtins \<Rightarrow> (string \<times> cload) list option \<Rightarrow> pie_view" where
  "PowerPieChart B loads_prop =
     (case loads_prop of
        None \<Rightarrow> Waiting
      | Some loads_obj \<Rightarrow>
          (case pie_entries B loads_obj of
             None \<Rightarrow> Threw
           | Some entries \<Rightarrow>
               (let total = pie_total entries
                in if js_le total (Fin 0.0001) then Placeholder
                   else Chart (make_slices total (Fin (- pi / 2)) entries) total)))"

subsection \<open>Polling and control\<close>

text \<open>
  The state of the mounted component: the four \<open>useState\<close> cells, the variable
  \<open>cancelled\<close> of the effect, whether the interval timer is registered, and the requests
  issued so far. \<open>crashed\<close> records an exception thrown by a state updater.
\<close>

record client =
  status :: "status option"
  loading :: bool
  error :: "string option"
  lastUpdated :: "int option"
  cancelled :: bool
  interval_set :: bool
  status_requests :: nat
  control_requests :: "control_body list"
  crashed :: bool

definition initial_client :: client where
  "initial_client =
     \<lparr>status = None, loading = True, error = None, lastUpdated = None,
      cancelled = False, interval_set = False, status_requests = 0,
      control_requests = [], crashed = False\<rparr>"

text \<open>How a \<open>fetch\<close> ends: a response with \<open>res.ok\<close> (and, for a status request, its parsed
  body), a response with another status code, or a rejected promise.\<close>

datatype 'a fetch_result = Ok_response 'a | Http_error nat | Rejected

text \<open>\<open>fetchStatus\<close> up to its first \<open>await\<close>: the request goes out.\<close>

definition fetchStatus_send :: "client \<Rightarrow> client" where
  "fetchStatus_send c = c\<lparr>status_requests := Suc (status_requests c)\<rparr>"

text \<open>\<open>fetchStatus\<close> after the response; \<open>now\<close> is \<open>new Date()\<close>.\<close>

definition fetchStatus_settle :: "status fetch_result \<Rightarrow> int \<Rightarrow> client \<Rightarrow> client" where
  "fetchStatus_settle res now c =
     (case res of
        Ok_response data \<Rightarrow>
          if cancelled c then c
          else c\<lparr>status := Some data, error := None, lastUpdated := Some now, loading := False\<rparr>
      | _ \<Rightarrow>
          if \<not> cancelled c
          then c\<lparr>error := Some ''Lost connection to device'', loading := False\<rparr>
          else c)"

text \<open>The effect: \<open>fetchStatus()\<close> and \<open>setInterval\<close> on mount, the clean-up on unmount. A
  timer that was cleared does not fire.\<close>

definition mount :: "client \<Rightarrow> client" where
  "mount c = (fetchStatus_send (c\<lparr>cancelled := False\<rparr>))\<lparr>interval_set := True\<rparr>"

definition interval_tick :: "client \<Rightarrow> client" where
  "interval_tick c = (if interval_set c then fetchStatus_send c else c)"

definition unmount :: "client \<Rightarrow> client" where
  "unmount c = c\<lparr>cancelled := True, interval_set := False\<rparr>"

text \<open>
  The object \<open>{...prev.loads, [loadId]: {...prev.loads[loadId], on: b}}\<close>: an own key keeps
  its place and its other fields; any other key becomes a new property with \<open>on\<close> alone,
  at the place the enumeration order gives it (among the array indices for a key such as
  \<open>"1"\<close>, at the end otherwise).
\<close>

definition on_only :: "bool \<Rightarrow> cload" where
  "on_only b =
     \<lparr>c_name = None, c_on = JBool b, c_voltage_V = JUndefined, c_current_A = JUndefined,
      c_power_W = JUndefined, c_energy_Wh = JUndefined\<rparr>"

definition put_on :: "string \<Rightarrow> bool \<Rightarrow> (string \<times> cload) list \<Rightarrow> (string \<times> cload) list" where
  "put_on loadId b obj =
     (case map_of obj loadId of
        Some l \<Rightarrow> map (\<lambda>(k, l). if k = loadId then (k, l\<lparr>c_on := JBool b\<rparr>) else (k, l)) obj
      | None \<Rightarrow> add_property loadId (on_only b) obj)"

text \<open>The updater passed to \<open>setStatus\<close>. With a status that has no \<open>loads\<close>,
  \<open>prev.loads[loadId]\<close> throws.\<close>

definition set_local_on :: "string \<Rightarrow> bool \<Rightarrow> status option \<Rightarrow> completion \<times> status option" where
  "set_local_on loadId b prev =
     (case prev of
        None \<Rightarrow> (Normal, prev)
      | Some st \<Rightarrow>
          (case st_loads st of
             None \<Rightarrow> (TypeError, prev)
           | Some ls \<Rightarrow> (Normal, Some (st\<lparr>st_loads := Some (put_on loadId b ls)\<rparr>))))"

text \<open>\<open>toggleLoad\<close> up to its \<open>await\<close>: nothing for the fan, otherwise the request goes
  out.\<close>

definition toggleLoad_send :: "string \<Rightarrow> jsval \<Rightarrow> client \<Rightarrow> client" where
  "toggleLoad_send loadId currentOn c =
     (if loadId = ''fan'' then c
      else c\<lparr>control_requests := control_requests c @
                [\<lparr>body_loadId = loadId, body_on = JBool (\<not> truthy currentOn)\<rparr>]\<rparr>)"

text \<open>\<open>toggleLoad\<close> after the response to its request: the status is written only when
  the response is ok.\<close>

definition toggleLoad_settle :: "string \<Rightarrow> jsval \<Rightarrow> unit fetch_result \<Rightarrow> client \<Rightarrow> client" where
  "toggleLoad_settle loadId currentOn res c =
     (case res of
        Ok_response _ \<Rightarrow>
          (case set_local_on loadId (\<not> truthy currentOn) (status c) of
             (Normal, st') \<Rightarrow> c\<lparr>status := st', error := None\<rparr>
           | (TypeError, _) \<Rightarrow> c\<lparr>error := None, crashed := True\<rparr>)
      | _ \<Rightarrow> c\<lparr>error := Some ''Failed to send command''\<rparr>)"

text \<open>The flag \<open>on\<close> that the client holds for a load, if it holds one.\<close>

definition local_on :: "client \<Rightarrow> string \<Rightarrow> jsval option" where
  "local_on c loadId =
     (case status c of
        None \<Rightarrow> None
      | Some st \<Rightarrow>
          (case st_loads st of
             None \<Rightarrow> None
           | Some ls \<Rightarrow> map_option c_on (map_of ls loadId)))"

text \<open>What can happen to the client, one event at a time.\<close>

datatype event =
    Tick
  | Status_settled "status fetch_result" int
  | Toggle string jsval
  | Control_settled string jsval "unit fetch_result"
  | Unmount

fun step :: "client \<Rightarrow> event \<Rightarrow> client" where
  "step c Tick = interval_tick c"
| "step c (Status_settled res now) = fetchStatus_settle res now c"
| "step c (Toggle loadId currentOn) = toggleLoad_send loadId currentOn c"
| "step c (Control_settled loadId currentOn res) = toggleLoad_settle loadId currentOn res c"
| "step c Unmount = unmount c"

definition run :: "client \<Rightarrow> event list \<Rightarrow> client" where
  "run c evs = foldl step c evs"

fun poll_event :: "event \<Rightarrow> bool" where
  "poll_event Tick = True"
| "poll_event (Status_settled res now) = True"
| "poll_event _ = False"

section \<open>Predicates and example states for the properties\<close>

text \<open>No load has a negative voltage.\<close>

definition voltages_ok :: "(string \<times> load) list \<Rightarrow> bool" where
  "voltages_ok ls = list_all (\<lambda>(k, l). 0 \<le> voltage_V l) ls"

text \<open>A load before and after a request: the same key; if it is on (the flag the cycle
  saw, which the cycle does not change), its energy did not decrease; if it is off, its
  energy is the same.\<close>

definition energy_step :: "string \<times> load \<Rightarrow> string \<times> load \<Rightarrow> bool" where
  "energy_step before after =
     (fst after = fst before \<and>
      (if on (snd after) then energy_Wh (snd before) \<le> energy_Wh (snd after)
       else energy_Wh (snd after) = energy_Wh (snd before)))"

text \<open>The server that the cycle of a control request starts from, after the assignment of
  the handler; \<open>None\<close> when the request is rejected.\<close>

definition control_target :: "control_body \<Rightarrow> server \<Rightarrow> server option" where
  "control_target body srv =
     (let loadId = body_loadId body;
          b = truthy (destructured_on (prototype_on srv) (body_on body))
      in case get_property (loads (state srv)) loadId of
           Own l \<Rightarrow>
             Some (srv\<lparr>state := (state srv)\<lparr>loads := set_on loadId b (loads (state srv))\<rparr>\<rparr>)
         | Inherited \<Rightarrow>
             Some (if loadId = ''__proto__'' then srv\<lparr>prototype_on := Some b\<rparr> else srv)
         | Absent \<Rightarrow>
             if loadId = ''on'' \<and> prototype_on srv = Some True then Some srv else None)"

text \<open>An environment for the examples: five seconds after the epoch, every
  \<open>Math.random()\<close> giving \<open>0.5\<close> (no noise).\<close>

definition example_env :: js_env where
  "example_env = \<lparr>date_now = 5000, math_random = (\<lambda>n. 1 / 2), number_toString = (\<lambda>x. [])\<rparr>"

text \<open>A state in which the fan is on and draws 60 W, with an alert left from before.\<close>

definition hot_fan_state :: device_state where
  "hot_fan_state =
     \<lparr>timestamp = 0,
      loads = [(''fan'', \<lparr>name = ''Desk Fan'', on = True, voltage_V = 120, current_A = 0.5,
                 power_W = 60, energy_Wh = 0\<rparr>)],
      thresholds = \<lparr>highUsage_W = 50\<rparr>,
      alerts = [\<lparr>alert_type = ''HIGH_USAGE'', alert_loadId = ''fan'',
                 alert_message = ''old'', alert_timestamp = 0\<rparr>]\<rparr>"

text \<open>The server after the request \<open>{"loadId": "__proto__", "on": true}\<close> at start-up.\<close>

definition polluted_server :: server where
  "polluted_server =
     snd (post_control example_env \<lparr>body_loadId = ''__proto__'', body_on = JBool True\<rparr>
            (start_server 0))"

text \<open>Stand-ins for the conversions of the language in the examples, none of which
  converts a string, an array or an object.\<close>

definition example_builtins :: js_builtins where
  "example_builtins =
     \<lparr>string_toNumber = (\<lambda>s. NaN), object_toNumber = (\<lambda>v. Some NaN),
      plus_other = (\<lambda>a b. None)\<rparr>"

text \<open>A load as the client may receive it, with \<open>power_W\<close> as given and the other numeric
  properties missing.\<close>

definition bare_load :: "jsval \<Rightarrow> cload" where
  "bare_load p =
     \<lparr>c_name = None, c_on = JBool True, c_voltage_V = JUndefined, c_current_A = JUndefined,
      c_power_W = p, c_energy_Wh = JUndefined\<rparr>"

text \<open>The client after mounting and receiving the seed state as its first status.\<close>

definition polled_client :: client where
  "polled_client =
     fetchStatus_settle (Ok_response (snapshot None (seed_state 0))) 7 (mount initial_client)"

section \<open>Properties of the server\<close>

subsection \<open>What a simulation cycle and a request leave\<close>

lemma get_property_Absent_iff:
  "get_property obj k = Absent \<longleftrightarrow> map_of obj k = None \<and> k \<notin> set object_prototype_keys"
  by (simp add: get_property_def split: option.splits)

lemma updateFakeReadings_loads:
  "loads (snd (updateFakeReadings env s)) = update_loads (math_random env) (loads s)"
  by (simp add: updateFakeReadings_def Let_def split: property.splits)

lemma updateFakeReadings_timestamp:
  "timestamp (snd (updateFakeReadings env s)) = date_now env div 1000"
  by (simp add: updateFakeReadings_def Let_def split: property.splits)

lemma updateFakeReadings_thresholds:
  "thresholds (snd (updateFakeReadings env s)) = thresholds s"
  by (simp add: updateFakeReadings_def Let_def split: property.splits)

lemma run_cycle_state:
  "state (snd (run_cycle ok env srv)) = snd (updateFakeReadings env (state srv))"
  by (cases "updateFakeReadings env (state srv)")
     (simp add: run_cycle_def split: completion.splits)

lemma run_cycle_prototype_on:
  "prototype_on (snd (run_cycle ok env srv)) = prototype_on srv"
  by (cases "updateFakeReadings env (state srv)")
     (simp add: run_cycle_def split: completion.splits)

lemma run_cycle_Normal:
  "fst (updateFakeReadings env (state srv)) = Normal \<Longrightarrow>
     fst (run_cycle ok env srv) = ok (state (snd (run_cycle ok env srv)))"
  by (cases "updateFakeReadings env (state srv)") (simp add: run_cycle_def)

lemma run_cycle_response:
  "fst (run_cycle Json200_ok env srv) = Json200_ok s' \<Longrightarrow>
     s' = snd (updateFakeReadings env (state srv))"
  by (cases "updateFakeReadings env (state srv)")
     (simp add: run_cycle_def split: completion.splits)

lemma get_status_state:
  "state (snd (get_status env srv)) = snd (updateFakeReadings env (state srv))"
  by (simp add: get_status_def run_cycle_state)

lemma get_status_prototype_on: "prototype_on (snd (get_status env srv)) = prototype_on srv"
  by (simp add: get_status_def run_cycle_prototype_on)

lemma post_control_target:
  "post_control env body srv =
     (case control_target body srv of
        Some srv1 \<Rightarrow> run_cycle Json200_ok env srv1
      | None \<Rightarrow> (Json400 ''Unknown loadId'', srv))"
  by (cases "get_property (loads (state srv)) (body_loadId body)")
     (simp_all add: post_control_def control_target_def Let_def)

lemma post_control_rejected:
  "control_target body srv = None \<Longrightarrow>
     post_control env body srv = (Json400 ''Unknown loadId'', srv)"
  by (simp add: post_control_target)

lemma post_control_state:
  "control_target body srv = Some srv1 \<Longrightarrow>
     state (snd (post_control env body srv)) = snd (updateFakeReadings env (state srv1))"
  by (simp add: post_control_target run_cycle_state)

lemma post_control_absent:
  "get_property (loads (state srv)) (body_loadId body) = Absent \<Longrightarrow>
   body_loadId body \<noteq> ''on'' \<or> prototype_on srv \<noteq> Some True \<Longrightarrow>
     post_control env body srv = (Json400 ''Unknown loadId'', srv)"
  by (auto simp: post_control_def Let_def)

lemma map_of_set_on:
  "map_of (set_on k0 b ls) k =
     (if k = k0 then map_option (\<lambda>l. l\<lparr>on := b\<rparr>) (map_of ls k) else map_of ls k)"
  by (induction ls) auto

lemma map_fst_set_on: "map fst (set_on k0 b ls) = map fst ls"
  by (induction ls) auto

lemma map_fst_update_loads: "map fst (update_loads rnd ls) = map fst ls"
  by (induction ls arbitrary: rnd) auto

lemma on_wiggle: "on (wiggle r l) = on l"
  by (simp add: wiggle_def Let_def)

lemma voltage_wiggle: "voltage_V (wiggle r l) = voltage_V l"
  by (simp add: wiggle_def Let_def)

lemma map_of_update_loads_on:
  "map_of ls k = Some l \<Longrightarrow> \<exists>l'. map_of (update_loads rnd ls) k = Some l' \<and> on l' = on l"
  by (induction ls arbitrary: rnd) (auto simp: on_wiggle)

lemma map_of_eq_None_keys: "map_of ls k = None \<longleftrightarrow> k \<notin> set (map fst ls)"
  by (simp add: map_of_eq_None_iff)

text \<open>With a load named \<open>fan\<close> the cycle completes.\<close>

lemma updateFakeReadings_Normal:
  assumes "''fan'' \<in> set (map fst (loads s))"
  shows "fst (updateFakeReadings env s) = Normal"
proof -
  have "''fan'' \<in> set (map fst (update_loads (math_random env) (loads s)))"
    using assms by (simp only: map_fst_update_loads)
  then obtain f where "map_of (update_loads (math_random env) (loads s)) ''fan'' = Some f"
    using map_of_eq_None_keys[of "update_loads (math_random env) (loads s)" "''fan''"]
    by (cases "map_of (update_loads (math_random env) (loads s)) ''fan''") auto
  then show ?thesis
    by (simp add: updateFakeReadings_def Let_def get_property_def)
qed

lemma updateFakeReadings_keys:
  "map fst (loads (snd (updateFakeReadings env s))) = map fst (loads s)"
  by (simp add: updateFakeReadings_loads map_fst_update_loads)

lemma control_target_keys:
  "control_target body srv = Some srv1 \<Longrightarrow>
     map fst (loads (state srv1)) = map fst (loads (state srv))"
  by (cases "get_property (loads (state srv)) (body_loadId body)")
     (auto simp: control_target_def Let_def map_fst_set_on split: if_splits)

lemma post_control_keys:
  "map fst (loads (state (snd (post_control env body srv)))) = map fst (loads (state srv))"
  by (cases "control_target body srv")
     (simp_all add: post_control_rejected post_control_state updateFakeReadings_keys
        control_target_keys)

text \<open>No request adds, removes or reorders a load.\<close>

lemma reachable_keys:
  "reachable srv \<Longrightarrow> map fst (loads (state srv)) = [''lamp'', ''charger'', ''fan'']"
proof (induction rule: reachable.induct)
  case (start t0)
  show ?case by (simp add: start_server_def seed_state_def seed_loads_def)
next
  case (status srv env)
  then show ?case by (simp add: get_status_state updateFakeReadings_keys)
next
  case (control srv env body)
  then show ?case by (simp add: post_control_keys)
qed

lemma post_control_ok:
  assumes "control_target body srv = Some srv1"
    and "''fan'' \<in> set (map fst (loads (state srv)))"
  shows "fst (post_control env body srv) = Json200_ok (state (snd (post_control env body srv)))"
proof -
  have "''fan'' \<in> set (map fst (loads (state srv1)))"
    using assms by (simp add: control_target_keys)
  then have "fst (updateFakeReadings env (state srv1)) = Normal"
    by (rule updateFakeReadings_Normal)
  then show ?thesis
    using assms(1) by (simp add: post_control_target run_cycle_Normal)
qed

lemma update_loads_readings:
  "(k, l) \<in> set (update_loads rnd ls) \<Longrightarrow>
     (if on l then power_W l = voltage_V l * current_A l
      else current_A l = 0 \<and> power_W l = 0)"
  by (induction ls arbitrary: rnd) (auto simp: wiggle_def Let_def split: if_splits)

lemma post_control_snd_cycle:
  assumes "fst (post_control env body srv) = Json200_ok s'"
  shows "\<exists>s1. s' = snd (updateFakeReadings env s1)"
proof (cases "control_target body srv")
  case None
  with assms show ?thesis by (simp add: post_control_rejected)
next
  case (Some srv1)
  with assms have "s' = snd (updateFakeReadings env (state srv1))"
    by (simp add: post_control_target run_cycle_response)
  then show ?thesis ..
qed

lemma get_status_snd_cycle:
  "\<exists>s1. state (snd (get_status env srv)) = snd (updateFakeReadings env s1)"
  using get_status_state by blast

lemma updateFakeReadings_alerts:
  "alerts (snd (updateFakeReadings env s)) =
     (case map_of (loads (snd (updateFakeReadings env s))) ''fan'' of
        None \<Rightarrow> []
      | Some fan \<Rightarrow>
          if on fan \<and> power_W fan > highUsage_W (thresholds (snd (updateFakeReadings env s)))
          then [\<lparr>alert_type = ''HIGH_USAGE'', alert_loadId = ''fan'',
                 alert_message = ''Fan above '' @
                   number_toString env (highUsage_W (thresholds (snd (updateFakeReadings env s)))) @ '' W'',
                 alert_timestamp = timestamp (snd (updateFakeReadings env s))\<rparr>]
          else [])"
  by (cases "map_of (update_loads (math_random env) (loads s)) ''fan''")
     (simp_all add: updateFakeReadings_def Let_def get_property_def high_usage_alert_def
        object_prototype_keys_def)

lemma voltages_ok_update_loads: "voltages_ok ls \<Longrightarrow> voltages_ok (update_loads rnd ls)"
  by (induction ls arbitrary: rnd) (auto simp: voltages_ok_def voltage_wiggle)

lemma voltages_ok_set_on: "voltages_ok ls \<Longrightarrow> voltages_ok (set_on k0 b ls)"
  by (induction ls) (auto simp: voltages_ok_def)

lemma control_target_voltages:
  "control_target body srv = Some srv1 \<Longrightarrow> voltages_ok (loads (state srv)) \<Longrightarrow>
     voltages_ok (loads (state srv1))"
  by (cases "get_property (loads (state srv)) (body_loadId body)")
     (auto simp: control_target_def Let_def voltages_ok_set_on split: if_splits)

lemma reachable_voltages: "reachable srv \<Longrightarrow> voltages_ok (loads (state srv))"
proof (induction rule: reachable.induct)
  case (start t0)
  show ?case by (simp add: start_server_def seed_state_def seed_loads_def voltages_ok_def)
next
  case (status srv env)
  then show ?case
    by (simp add: get_status_state updateFakeReadings_loads voltages_ok_update_loads)
next
  case (control srv env body)
  then show ?case
    by (cases "control_target body srv")
       (simp_all add: post_control_rejected post_control_state updateFakeReadings_loads
          voltages_ok_update_loads control_target_voltages)
qed

lemma energy_wiggle: "0 \<le> voltage_V l \<Longrightarrow> energy_Wh l \<le> energy_Wh (wiggle r l)"
  by (simp add: wiggle_def Let_def)

lemma energy_update_loads:
  "voltages_ok ls \<Longrightarrow> list_all2 energy_step ls (update_loads rnd ls)"
  by (induction ls arbitrary: rnd)
     (auto simp: voltages_ok_def energy_step_def on_wiggle energy_wiggle)

lemma energy_set_on_update_loads:
  "voltages_ok ls \<Longrightarrow> list_all2 energy_step ls (update_loads rnd (set_on k0 b ls))"
proof (induction ls arbitrary: rnd)
  case Nil
  show ?case by simp
next
  case (Cons p ls)
  obtain k l where p: "p = (k, l)" by (cases p)
  from Cons.prems have v: "0 \<le> voltage_V l" and vs: "voltages_ok ls"
    by (simp_all add: p voltages_ok_def)
  have on_head: "energy_step (k, l) (k, wiggle r (l\<lparr>on := True\<rparr>))" for r
    using v by (simp add: energy_step_def wiggle_def Let_def)
  have off_head: "energy_step (k, l) (k, l\<lparr>on := False, current_A := 0, power_W := 0\<rparr>)"
    by (simp add: energy_step_def)
  have same_head: "on l \<Longrightarrow> energy_step (k, l) (k, wiggle r l)"
    "\<not> on l \<Longrightarrow> energy_step (k, l) (k, l\<lparr>current_A := 0, power_W := 0\<rparr>)" for r
    using v by (simp_all add: energy_step_def on_wiggle energy_wiggle)
  show ?case
  proof (cases "k = k0")
    case True
    then show ?thesis
      using energy_update_loads[OF vs] on_head off_head
      by (cases b) (simp_all add: p)
  next
    case False
    then show ?thesis
      using Cons.IH[OF vs] same_head
      by (simp add: p)
  qed
qed

lemma energy_control_target:
  assumes "control_target body srv = Some srv1" and "voltages_ok (loads (state srv))"
  shows "list_all2 energy_step (loads (state srv)) (update_loads rnd (loads (state srv1)))"
proof (cases "get_property (loads (state srv)) (body_loadId body)")
  case (Own l)
  with assms(1) have "loads (state srv1) =
      set_on (body_loadId body)
        (truthy (destructured_on (prototype_on srv) (body_on body))) (loads (state srv))"
    by (auto simp: control_target_def Let_def)
  then show ?thesis by (simp add: energy_set_on_update_loads[OF assms(2)])
next
  case Inherited
  with assms(1) have "loads (state srv1) = loads (state srv)"
    by (auto simp: control_target_def Let_def split: if_splits)
  then show ?thesis by (simp add: energy_update_loads[OF assms(2)])
next
  case Absent
  with assms(1) have "loads (state srv1) = loads (state srv)"
    by (auto simp: control_target_def Let_def split: if_splits)
  then show ?thesis by (simp add: energy_update_loads[OF assms(2)])
qed

text \<open>
  In the reachable states the fan never draws current: its \<open>current_A\<close> is 0 at start-up
  and the noise multiplies it. So no request made in a reachable state leaves an alert.
\<close>

lemma update_loads_idle:
  "map_of ls k = Some l \<Longrightarrow> current_A l = 0 \<Longrightarrow>
     \<exists>l'. map_of (update_loads rnd ls) k = Some l' \<and> current_A l' = 0 \<and> power_W l' = 0"
  by (induction ls arbitrary: rnd) (auto simp: wiggle_def Let_def)

lemma control_target_idle:
  assumes "control_target body srv = Some srv1"
    and "map_of (loads (state srv)) k = Some l" and "current_A l = 0"
  shows "\<exists>l'. map_of (loads (state srv1)) k = Some l' \<and> current_A l' = 0"
  using assms
  by (cases "get_property (loads (state srv)) (body_loadId body)")
     (auto simp: control_target_def Let_def map_of_set_on split: if_splits)

lemma control_target_thresholds:
  "control_target body srv = Some srv1 \<Longrightarrow> thresholds (state srv1) = thresholds (state srv)"
  by (cases "get_property (loads (state srv)) (body_loadId body)")
     (auto simp: control_target_def Let_def split: if_splits)

lemma cycle_idle:
  assumes "map_of (loads s) ''fan'' = Some f" and "current_A f = 0"
  shows "\<exists>f'. map_of (loads (snd (updateFakeReadings env s))) ''fan'' = Some f' \<and>
           current_A f' = 0 \<and> power_W f' = 0"
  using update_loads_idle[OF assms] by (simp add: updateFakeReadings_loads)

lemma post_control_thresholds:
  "thresholds (state (snd (post_control env body srv))) = thresholds (state srv)"
  by (cases "control_target body srv")
     (simp_all add: post_control_rejected post_control_state updateFakeReadings_thresholds
        control_target_thresholds)

lemma reachable_threshold: "reachable srv \<Longrightarrow> highUsage_W (thresholds (state srv)) = 50"
  by (induction rule: reachable.induct)
     (simp_all add: start_server_def seed_state_def get_status_state
        updateFakeReadings_thresholds post_control_thresholds)

lemma reachable_fan_idle:
  "reachable srv \<Longrightarrow>
     \<exists>f. map_of (loads (state srv)) ''fan'' = Some f \<and> current_A f = 0 \<and> power_W f = 0"
proof (induction rule: reachable.induct)
  case (start t0)
  show ?case by (simp add: start_server_def seed_state_def seed_loads_def)
next
  case (status srv env)
  then show ?case using cycle_idle[of "state srv" _ env] by (auto simp: get_status_state)
next
  case (control srv env body)
  then obtain f where f: "map_of (loads (state srv)) ''fan'' = Some f" "current_A f = 0"
      "power_W f = 0"
    by blast
  show ?case
  proof (cases "control_target body srv")
    case None
    with f show ?thesis by (simp add: post_control_rejected)
  next
    case (Some srv1)
    obtain f1 where "map_of (loads (state srv1)) ''fan'' = Some f1" "current_A f1 = 0"
      using control_target_idle[OF Some f(1,2)] by auto
    from cycle_idle[OF this] show ?thesis by (simp add: post_control_state[OF Some])
  qed
qed

lemma cycle_no_alert:
  assumes "map_of (loads s) ''fan'' = Some f" and "current_A f = 0"
    and "0 \<le> highUsage_W (thresholds s)"
  shows "alerts (snd (updateFakeReadings env s)) = []"
proof -
  obtain f' where "map_of (loads (snd (updateFakeReadings env s))) ''fan'' = Some f'"
      "power_W f' = 0"
    using cycle_idle[OF assms(1,2), of env] by auto
  then show ?thesis
    using assms(3) updateFakeReadings_alerts[of env s]
    by (simp add: updateFakeReadings_thresholds)
qed

lemma reachable_alerts_empty: "reachable srv \<Longrightarrow> alerts (state srv) = []"
proof (induction rule: reachable.induct)
  case (start t0)
  show ?case by (simp add: start_server_def seed_state_def)
next
  case (status srv env)
  from reachable_fan_idle[OF status.hyps] reachable_threshold[OF status.hyps]
  show ?case by (auto simp: get_status_state intro: cycle_no_alert)
next
  case (control srv env body)
  obtain f where f: "map_of (loads (state srv)) ''fan'' = Some f" "current_A f = 0"
    using reachable_fan_idle[OF control.hyps] by blast
  have t: "0 \<le> highUsage_W (thresholds (state srv))"
    using reachable_threshold[OF control.hyps] by simp
  show ?case
  proof (cases "control_target body srv")
    case None
    with control.IH show ?thesis by (simp add: post_control_rejected)
  next
    case (Some srv1)
    obtain f1 where f1: "map_of (loads (state srv1)) ''fan'' = Some f1" "current_A f1 = 0"
      using control_target_idle[OF Some f] by auto
    have "0 \<le> highUsage_W (thresholds (state srv1))"
      using t by (simp add: control_target_thresholds[OF Some])
    from cycle_no_alert[OF f1 this] show ?thesis by (simp add: post_control_state[OF Some])
  qed
qed

subsection \<open>Control requests with an unknown \<open>loadId\<close>\<close>

text \<open>
  C1. A control request whose \<open>loadId\<close> is not a key of \<open>state.loads\<close> is to be answered with
  400 and to leave the state as it is. The guard tests the truthiness of
  \<open>state.loads[loadId]\<close>, so the name of a property of \<open>Object.prototype\<close> passes it: for
  \<open>constructor\<close>, at start-up, the handler answers 200 and a simulation cycle runs
  (the timestamp moves, the energy of the loads that are on grows).
\<close>

theorem post_control_constructor:
  "map_of (loads (state (start_server 0))) ''constructor'' = None \<and>
   post_control example_env \<lparr>body_loadId = ''constructor'', body_on = JBool True\<rparr>
       (start_server 0)
     = (Json200_ok
          \<lparr>timestamp = 5,
           loads =
             [(''lamp'', \<lparr>name = ''Desk Lamp'', on = True, voltage_V = 120, current_A = 0.25,
                 power_W = 30, energy_Wh = 12.5 + 30 / 3600\<rparr>),
              (''charger'', \<lparr>name = ''Phone Charger'', on = True, voltage_V = 5, current_A = 1.2,
                 power_W = 6, energy_Wh = 3.4 + 6 / 3600\<rparr>),
              (''fan'', \<lparr>name = ''Desk Fan'', on = False, voltage_V = 120, current_A = 0,
                 power_W = 0, energy_Wh = 20.1\<rparr>)],
           thresholds = \<lparr>highUsage_W = 50\<rparr>, alerts = []\<rparr>,
        \<lparr>state =
           \<lparr>timestamp = 5,
            loads =
              [(''lamp'', \<lparr>name = ''Desk Lamp'', on = True, voltage_V = 120, current_A = 0.25,
                  power_W = 30, energy_Wh = 12.5 + 30 / 3600\<rparr>),
               (''charger'', \<lparr>name = ''Phone Charger'', on = True, voltage_V = 5, current_A = 1.2,
                  power_W = 6, energy_Wh = 3.4 + 6 / 3600\<rparr>),
               (''fan'', \<lparr>name = ''Desk Fan'', on = False, voltage_V = 120, current_A = 0,
                  power_W = 0, energy_Wh = 20.1\<rparr>)],
            thresholds = \<lparr>highUsage_W = 50\<rparr>, alerts = []\<rparr>,
         prototype_on = None\<rparr>)"
  by (simp add: post_control_def run_cycle_def get_property_def start_server_def seed_state_def
      seed_loads_def example_env_def object_prototype_keys_def updateFakeReadings_def
      wiggle_def Let_def)

subsection \<open>Simulation cycles\<close>

text \<open>
  C2. After every simulation cycle (the cycle itself, a status poll, a control request that
  was applied), every load that is off has \<open>current_A = 0\<close> and \<open>power_W = 0\<close>, and every
  load that is on has \<open>power_W\<close> within any \<open>eps > 0\<close> of \<open>voltage_V * current_A\<close>.
\<close>

theorem readings_after_cycle:
  assumes "s' = snd (updateFakeReadings env s) \<or> s' = state (snd (get_status env srv))
             \<or> fst (post_control env body srv) = Json200_ok s'"
    and "(k, l) \<in> set (loads s')"
  shows "(\<not> on l \<longrightarrow> current_A l = 0 \<and> power_W l = 0) \<and>
         (on l \<longrightarrow> (\<forall>eps > 0. \<bar>power_W l - voltage_V l * current_A l\<bar> < eps))"
proof -
  obtain s1 where "s' = snd (updateFakeReadings env s1)"
    using assms(1) post_control_snd_cycle[of env body srv s'] get_status_state[of env srv]
    by auto
  then have "(k, l) \<in> set (update_loads (math_random env) (loads s1))"
    using assms(2) by (simp add: updateFakeReadings_loads)
  from update_loads_readings[OF this] show ?thesis
    by (cases "on l") simp_all
qed

theorem readings_after_cycle_witness:
  "fst (post_control example_env \<lparr>body_loadId = ''lamp'', body_on = JBool False\<rparr>
          (start_server 0))
     = Json200_ok
         \<lparr>timestamp = 5,
          loads =
            [(''lamp'', \<lparr>name = ''Desk Lamp'', on = False, voltage_V = 120, current_A = 0,
                power_W = 0, energy_Wh = 12.5\<rparr>),
             (''charger'', \<lparr>name = ''Phone Charger'', on = True, voltage_V = 5, current_A = 1.2,
                power_W = 6, energy_Wh = 3.4 + 6 / 3600\<rparr>),
             (''fan'', \<lparr>name = ''Desk Fan'', on = False, voltage_V = 120, current_A = 0,
                power_W = 0, energy_Wh = 20.1\<rparr>)],
          thresholds = \<lparr>highUsage_W = 50\<rparr>, alerts = []\<rparr> \<and>
   (0::real) < 1 / 1000 \<and>
   \<bar>(6::real) - 5 * 1.2\<bar> < 1 / 1000"
proof -
  let ?s' = "\<lparr>timestamp = 5,
          loads =
            [(''lamp'', \<lparr>name = ''Desk Lamp'', on = False, voltage_V = 120, current_A = 0,
                power_W = 0, energy_Wh = 12.5\<rparr>),
             (''charger'', \<lparr>name = ''Phone Charger'', on = True, voltage_V = 5, current_A = 1.2,
                power_W = 6, energy_Wh = 3.4 + 6 / 3600\<rparr>),
             (''fan'', \<lparr>name = ''Desk Fan'', on = False, voltage_V = 120, current_A = 0,
                power_W = 0, energy_Wh = 20.1\<rparr>)],
          thresholds = \<lparr>highUsage_W = 50\<rparr>, alerts = []\<rparr>"
  have run: "fst (post_control example_env \<lparr>body_loadId = ''lamp'', body_on = JBool False\<rparr>
                (start_server 0)) = Json200_ok ?s'"
    by (simp add: post_control_def run_cycle_def get_property_def start_server_def
        seed_state_def seed_loads_def example_env_def destructured_on_def
        updateFakeReadings_def wiggle_def Let_def)
  have mem: "(''charger'', \<lparr>name = ''Phone Charger'', on = True, voltage_V = 5, current_A = 1.2,
                power_W = 6, energy_Wh = 3.4 + 6 / 3600\<rparr>) \<in> set (loads ?s')"
    by simp
  have "\<forall>eps > 0. \<bar>(6::real) - 5 * 1.2\<bar> < eps"
    using readings_after_cycle[OF disjI2[OF disjI2[OF run]] mem] by simp
  then show ?thesis using run by simp
qed

text \<open>
  C3. After every simulation cycle the alerts are exactly: one \<open>HIGH_USAGE\<close> alert for the
  fan, stamped with the new timestamp, if the fan is on and its \<open>power_W\<close> is greater than
  \<open>thresholds.highUsage_W\<close>; nothing otherwise. The alerts of the state before do not
  appear in the result.
\<close>

theorem alerts_rebuilt:
  assumes "s' = snd (updateFakeReadings env s) \<or> s' = state (snd (get_status env srv))
             \<or> fst (post_control env body srv) = Json200_ok s'"
  shows "alerts s' =
     (case map_of (loads s') ''fan'' of
        None \<Rightarrow> []
      | Some fan \<Rightarrow>
          if on fan \<and> power_W fan > highUsage_W (thresholds s')
          then [\<lparr>alert_type = ''HIGH_USAGE'', alert_loadId = ''fan'',
                 alert_message = ''Fan above '' @
                   number_toString env (highUsage_W (thresholds s')) @ '' W'',
                 alert_timestamp = timestamp s'\<rparr>]
          else [])"
proof -
  obtain s1 where "s' = snd (updateFakeReadings env s1)"
    using assms post_control_snd_cycle[of env body srv s'] get_status_state[of env srv]
    by auto
  then show ?thesis
    by (simp only: updateFakeReadings_alerts[of env s1])
qed

text \<open>One status poll on \<open>hot_fan_state\<close>: the old alert is gone and the new one is the
  only one.\<close>

theorem alerts_rebuilt_witness:
  "alerts (state (snd (get_status example_env \<lparr>state = hot_fan_state, prototype_on = None\<rparr>))) =
     [\<lparr>alert_type = ''HIGH_USAGE'', alert_loadId = ''fan'',
       alert_message = ''Fan above  W'', alert_timestamp = 5\<rparr>]"
proof -
  let ?srv = "\<lparr>state = hot_fan_state, prototype_on = None\<rparr>"
  have l: "loads (state (snd (get_status example_env ?srv))) =
      [(''fan'', \<lparr>name = ''Desk Fan'', on = True, voltage_V = 120, current_A = 0.5,
                 power_W = 60, energy_Wh = 60 / 3600\<rparr>)]"
    by (simp add: get_status_state updateFakeReadings_loads hot_fan_state_def example_env_def
        wiggle_def Let_def)
  have t: "timestamp (state (snd (get_status example_env ?srv))) = 5"
    "thresholds (state (snd (get_status example_env ?srv))) = \<lparr>highUsage_W = 50\<rparr>"
    by (simp_all add: get_status_state updateFakeReadings_timestamp updateFakeReadings_thresholds
        hot_fan_state_def example_env_def)
  have n: "number_toString example_env 50 = []"
    by (simp add: example_env_def)
  show ?thesis
    using alerts_rebuilt[of "state (snd (get_status example_env ?srv))" example_env
        hot_fan_state ?srv, OF disjI2[OF disjI1[OF refl]]]
    by (simp add: l t n)
qed

text \<open>
  C5. Over every request made in a reachable state (a status poll or a control request,
  hence over every simulation cycle), the energy of a load that is on does not decrease and
  the energy of a load that is off does not change.
\<close>

theorem energy_monotone:
  assumes "reachable srv"
    and "srv' = snd (get_status env srv) \<or> srv' = snd (post_control env body srv)"
  shows "list_all2 energy_step (loads (state srv)) (loads (state srv'))"
proof -
  have v: "voltages_ok (loads (state srv))"
    using assms(1) by (rule reachable_voltages)
  from assms(2) show ?thesis
  proof
    assume "srv' = snd (get_status env srv)"
    then show ?thesis
      by (simp add: get_status_state updateFakeReadings_loads energy_update_loads[OF v])
  next
    assume s': "srv' = snd (post_control env body srv)"
    show ?thesis
    proof (cases "control_target body srv")
      case None
      then show ?thesis
        by (simp add: s' post_control_rejected energy_step_def list_all2_same)
    next
      case (Some srv1)
      then show ?thesis
        by (simp add: s' post_control_state updateFakeReadings_loads
            energy_control_target[OF Some v])
    qed
  qed
qed

theorem energy_monotone_witness:
  "reachable (start_server 0) \<and>
   loads (state (snd (post_control example_env \<lparr>body_loadId = ''lamp'', body_on = JBool False\<rparr>
                 (start_server 0)))) =
     [(''lamp'', \<lparr>name = ''Desk Lamp'', on = False, voltage_V = 120, current_A = 0,
         power_W = 0, energy_Wh = 12.5\<rparr>),
      (''charger'', \<lparr>name = ''Phone Charger'', on = True, voltage_V = 5, current_A = 1.2,
         power_W = 6, energy_Wh = 3.4 + 6 / 3600\<rparr>),
      (''fan'', \<lparr>name = ''Desk Fan'', on = False, voltage_V = 120, current_A = 0,
         power_W = 0, energy_Wh = 20.1\<rparr>)] \<and>
   list_all2 energy_step (loads (state (start_server 0)))
     (loads (state (snd (post_control example_env \<lparr>body_loadId = ''lamp'', body_on = JBool False\<rparr>
                 (start_server 0)))))"
proof -
  have r: "reachable (start_server 0)" by (rule reachable.start)
  have e: "loads (state (snd (post_control example_env \<lparr>body_loadId = ''lamp'', body_on = JBool False\<rparr>
                 (start_server 0)))) =
     [(''lamp'', \<lparr>name = ''Desk Lamp'', on = False, voltage_V = 120, current_A = 0,
         power_W = 0, energy_Wh = 12.5\<rparr>),
      (''charger'', \<lparr>name = ''Phone Charger'', on = True, voltage_V = 5, current_A = 1.2,
         power_W = 6, energy_Wh = 3.4 + 6 / 3600\<rparr>),
      (''fan'', \<lparr>name = ''Desk Fan'', on = False, voltage_V = 120, current_A = 0,
         power_W = 0, energy_Wh = 20.1\<rparr>)]"
    by (simp add: post_control_def run_cycle_def get_property_def start_server_def
        seed_state_def seed_loads_def example_env_def destructured_on_def
        updateFakeReadings_def wiggle_def Let_def)
  show ?thesis
    using r e energy_monotone[OF r disjI2[OF refl], of example_env
        "\<lparr>body_loadId = ''lamp'', body_on = JBool False\<rparr>"]
    by simp
qed

subsection \<open>Control requests for a load\<close>

lemma truthy_cases:
  "truthy v =
     (case v of
        JUndefined \<Rightarrow> False
      | JNull \<Rightarrow> False
      | JBool b \<Rightarrow> b
      | JNum x \<Rightarrow> x \<noteq> Fin 0 \<and> x \<noteq> NaN
      | JStr s \<Rightarrow> s \<noteq> []
      | JArray xs \<Rightarrow> True
      | JObject fs \<Rightarrow> True)"
  by (cases v) simp_all

text \<open>For an own key the handler answers 200 and stores the truthiness of what it
  destructured: of the field \<open>on\<close> when the body has one, of the \<open>on\<close> of
  \<open>Object.prototype\<close> when it has none.\<close>

lemma control_on_flag:
  assumes "reachable srv" and "map_of (loads (state srv)) (body_loadId body) = Some l"
  shows "\<exists>l'. fst (post_control env body srv) = Json200_ok (state (snd (post_control env body srv))) \<and>
           map_of (loads (state (snd (post_control env body srv)))) (body_loadId body) = Some l' \<and>
           on l' =
             (case body_on body of
                JUndefined \<Rightarrow> prototype_on srv = Some True
              | JNull \<Rightarrow> False
              | JBool b \<Rightarrow> b
              | JNum x \<Rightarrow> x \<noteq> Fin 0 \<and> x \<noteq> NaN
              | JStr s \<Rightarrow> s \<noteq> []
              | JArray xs \<Rightarrow> True
              | JObject fs \<Rightarrow> True)"
proof -
  let ?k = "body_loadId body"
  let ?b = "truthy (destructured_on (prototype_on srv) (body_on body))"
  let ?srv1 = "srv\<lparr>state := (state srv)\<lparr>loads := set_on ?k ?b (loads (state srv))\<rparr>\<rparr>"
  have own: "get_property (loads (state srv)) ?k = Own l"
    using assms(2) by (simp add: get_property_def)
  then have tgt: "control_target body srv = Some ?srv1"
    by (simp add: control_target_def Let_def)
  have fan: "''fan'' \<in> set (map fst (loads (state srv)))"
    using reachable_keys[OF assms(1)] by simp
  have m1: "map_of (loads (state ?srv1)) ?k = Some (l\<lparr>on := ?b\<rparr>)"
    using assms(2) by (simp add: map_of_set_on)
  obtain l' where l': "map_of (update_loads (math_random env) (loads (state ?srv1))) ?k = Some l'"
      "on l' = ?b"
    using map_of_update_loads_on[OF m1, of "math_random env"] by auto
  have ld: "loads (state (snd (post_control env body srv))) =
      update_loads (math_random env) (loads (state ?srv1))"
    by (simp add: post_control_state[OF tgt] updateFakeReadings_loads)
  have b: "?b =
             (case body_on body of
                JUndefined \<Rightarrow> prototype_on srv = Some True
              | JNull \<Rightarrow> False
              | JBool b \<Rightarrow> b
              | JNum x \<Rightarrow> x \<noteq> Fin 0 \<and> x \<noteq> NaN
              | JStr s \<Rightarrow> s \<noteq> []
              | JArray xs \<Rightarrow> True
              | JObject fs \<Rightarrow> True)"
    by (cases "body_on body"; cases "prototype_on srv") (auto simp: destructured_on_def)
  from l' ld b post_control_ok[OF tgt fan, of env] show ?thesis by auto
qed

lemma polluted_server_eq:
  "polluted_server =
     \<lparr>state =
        \<lparr>timestamp = 5,
         loads =
           [(''lamp'', \<lparr>name = ''Desk Lamp'', on = True, voltage_V = 120, current_A = 0.25,
               power_W = 30, energy_Wh = 12.5 + 30 / 3600\<rparr>),
            (''charger'', \<lparr>name = ''Phone Charger'', on = True, voltage_V = 5, current_A = 1.2,
               power_W = 6, energy_Wh = 3.4 + 6 / 3600\<rparr>),
            (''fan'', \<lparr>name = ''Desk Fan'', on = False, voltage_V = 120, current_A = 0,
               power_W = 0, energy_Wh = 20.1\<rparr>)],
         thresholds = \<lparr>highUsage_W = 50\<rparr>, alerts = []\<rparr>,
      prototype_on = Some True\<rparr>"
  by (simp add: polluted_server_def post_control_def run_cycle_def get_property_def
      start_server_def seed_state_def seed_loads_def example_env_def destructured_on_def
      object_prototype_keys_def updateFakeReadings_def wiggle_def Let_def)

lemma polluted_server_reachable: "reachable polluted_server"
  unfolding polluted_server_def by (intro reachable.control reachable.start)

text \<open>
  C9. For a control request whose \<open>loadId\<close> is a key of the loads, the flag stored is to be
  the truthiness of the field \<open>on\<close> of the body, a body without \<open>on\<close> turning the load
  off. The request \<open>{"loadId": "__proto__", "on": true}\<close>, which the guard lets through as
  in C1, leaves \<open>on = true\<close> on \<open>Object.prototype\<close>; from then on a body without \<open>on\<close>
  destructures \<open>true\<close>. Sent for the fan, which is off, \<open>{"loadId": "fan"}\<close> turns it on;
  at start-up the same request leaves it off.
\<close>

theorem control_missing_on_inherits:
  "map_of (loads (state (start_server 0))) ''__proto__'' = None \<and>
   prototype_on polluted_server = Some True \<and>
   map_option on (map_of (loads (state polluted_server)) ''fan'') = Some False \<and>
   fst (post_control example_env \<lparr>body_loadId = ''fan'', body_on = JUndefined\<rparr> polluted_server)
     = Json200_ok
         \<lparr>timestamp = 5,
          loads =
            [(''lamp'', \<lparr>name = ''Desk Lamp'', on = True, voltage_V = 120, current_A = 0.25,
                power_W = 30, energy_Wh = 12.5 + 30 / 3600 + 30 / 3600\<rparr>),
             (''charger'', \<lparr>name = ''Phone Charger'', on = True, voltage_V = 5, current_A = 1.2,
                power_W = 6, energy_Wh = 3.4 + 6 / 3600 + 6 / 3600\<rparr>),
             (''fan'', \<lparr>name = ''Desk Fan'', on = True, voltage_V = 120, current_A = 0,
                power_W = 0, energy_Wh = 20.1\<rparr>)],
          thresholds = \<lparr>highUsage_W = 50\<rparr>, alerts = []\<rparr> \<and>
   map_option on
     (map_of (loads (state (snd (post_control example_env
        \<lparr>body_loadId = ''fan'', body_on = JUndefined\<rparr> (start_server 0))))) ''fan'') = Some False"
  by (simp add: polluted_server_eq)
     (simp add: post_control_def run_cycle_def get_property_def
      start_server_def seed_state_def seed_loads_def example_env_def destructured_on_def
      object_prototype_keys_def updateFakeReadings_def wiggle_def Let_def)

section \<open>Properties of the client\<close>

subsection \<open>Summary numbers\<close>







subsection \<open>Polling\<close>

lemma step_poll_cancelled:
  "cancelled c \<Longrightarrow> \<not> interval_set c \<Longrightarrow> poll_event ev \<Longrightarrow> step c ev = c"
  by (cases ev) (auto simp: interval_tick_def fetchStatus_settle_def split: fetch_result.splits)

lemma run_poll_cancelled:
  "cancelled c \<Longrightarrow> \<not> interval_set c \<Longrightarrow> \<forall>ev \<in> set evs. poll_event ev \<Longrightarrow> run c evs = c"
  unfolding run_def
  by (induction evs) (simp_all add: step_poll_cancelled)

text \<open>
  C7. After the clean-up of the effect, no timer tick and no response to a status request,
  whenever the request was issued, changes the client: \<open>status\<close>, \<open>error\<close>,
  \<open>lastUpdated\<close> and \<open>loading\<close> stay as they were and no further status request goes out.
\<close>

theorem no_poll_effect_after_unmount:
  assumes "\<forall>ev \<in> set evs. poll_event ev"
  shows "run (unmount c) evs = unmount c \<and>
         status (run (unmount c) evs) = status c \<and>
         error (run (unmount c) evs) = error c \<and>
         lastUpdated (run (unmount c) evs) = lastUpdated c \<and>
         loading (run (unmount c) evs) = loading c \<and>
         status_requests (run (unmount c) evs) = status_requests c"
proof -
  have "run (unmount c) evs = unmount c"
    using assms by (intro run_poll_cancelled) (simp_all add: unmount_def)
  then show ?thesis by (simp add: unmount_def)
qed

theorem no_poll_effect_after_unmount_witness:
  "poll_event (Status_settled (Ok_response (snapshot None (seed_state 0))) 7) \<and>
   poll_event Tick \<and> poll_event (Status_settled Rejected 8) \<and>
   run (unmount (mount initial_client))
     [Status_settled (Ok_response (snapshot None (seed_state 0))) 7, Tick,
      Status_settled Rejected 8]
     = \<lparr>status = None, loading = True, error = None, lastUpdated = None,
        cancelled = True, interval_set = False, status_requests = 1,
        control_requests = [], crashed = False\<rparr> \<and>
   status (run (mount initial_client)
     [Status_settled (Ok_response (snapshot None (seed_state 0))) 7, Tick,
      Status_settled Rejected 8]) = Some (snapshot None (seed_state 0)) \<and>
   status_requests (run (mount initial_client)
     [Status_settled (Ok_response (snapshot None (seed_state 0))) 7, Tick,
      Status_settled Rejected 8]) = 2"
proof -
  have p: "\<forall>ev \<in> set [Status_settled (Ok_response (snapshot None (seed_state 0))) 7, Tick,
                  Status_settled Rejected 8]. poll_event ev"
    by simp
  have u: "unmount (mount initial_client) =
      \<lparr>status = None, loading = True, error = None, lastUpdated = None,
        cancelled = True, interval_set = False, status_requests = 1,
        control_requests = [], crashed = False\<rparr>"
    by (simp add: unmount_def mount_def initial_client_def fetchStatus_send_def)
  have m: "status (run (mount initial_client)
     [Status_settled (Ok_response (snapshot None (seed_state 0))) 7, Tick,
      Status_settled Rejected 8]) = Some (snapshot None (seed_state 0))"
    "status_requests (run (mount initial_client)
     [Status_settled (Ok_response (snapshot None (seed_state 0))) 7, Tick,
      Status_settled Rejected 8]) = 2"
    by (simp_all add: run_def mount_def initial_client_def fetchStatus_send_def
        fetchStatus_settle_def interval_tick_def)
  show ?thesis
    using p u m no_poll_effect_after_unmount[OF p, of "mount initial_client"]
    by simp
qed

subsection \<open>Toggling a load\<close>

lemma map_of_add_property:
  "map_of obj k0 = None \<Longrightarrow> map_of (add_property k0 v obj) k = ((map_of obj)(k0 \<mapsto> v)) k"
proof -
  assume n: "map_of obj k0 = None"
  have split: "map_of (xs @ (k0, v) # ys) k = ((map_of (xs @ ys))(k0 \<mapsto> v)) k"
    if "map_of (xs @ ys) k0 = None" for xs ys :: "(string \<times> 'a) list"
    using that by (induction xs) (auto split: if_splits)
  show ?thesis
  proof (cases "array_index k0")
    case None
    then show ?thesis using n split[of obj "[]"] by (simp add: add_property_def)
  next
    case (Some i)
    have "map_of (takeWhile (before_index i) obj @ dropWhile (before_index i) obj) k0 = None"
      using n by simp
    from split[OF this] Some show ?thesis by (simp add: add_property_def)
  qed
qed

lemma map_of_put_on:
  "map_of (put_on k0 b ls) k =
     (if k = k0
      then Some (case map_of ls k0 of Some l \<Rightarrow> l\<lparr>c_on := JBool b\<rparr> | None \<Rightarrow> on_only b)
      else map_of ls k)"
proof (cases "map_of ls k0")
  case None
  then show ?thesis by (simp add: put_on_def map_of_add_property)
next
  case (Some l)
  have "map_of (map (\<lambda>(k, l). if k = k0 then (k, l\<lparr>c_on := JBool b\<rparr>) else (k, l)) ls) k =
      (if k = k0 then map_option (\<lambda>l. l\<lparr>c_on := JBool b\<rparr>) (map_of ls k) else map_of ls k)"
    by (induction ls) auto
  with Some show ?thesis by (simp add: put_on_def)
qed

text \<open>The place of a new key: \<open>"1"\<close> goes between \<open>"0"\<close> and \<open>"2"\<close>; \<open>"heater"\<close> and
  \<open>"01"\<close>, which is no array index, go to the end.\<close>

lemma array_index_examples:
  "array_index ''1'' = Some 1" "array_index ''0'' = Some 0" "array_index ''12'' = Some 12"
  "array_index ''01'' = None" "array_index ''lamp'' = None" "array_index '''' = None"
  "array_index ''4294967294'' = Some 4294967294" "array_index ''4294967295'' = None"
  by (simp_all add: array_index_def decimal_def)

lemma add_property_examples:
  "add_property ''1'' v [(''0'', a), (''2'', b), (''lamp'', c)] =
     [(''0'', a), (''1'', v), (''2'', b), (''lamp'', c)]"
  "add_property ''heater'' v [(''0'', a), (''2'', b), (''lamp'', c)] =
     [(''0'', a), (''2'', b), (''lamp'', c), (''heater'', v)]"
  "add_property ''01'' v [(''0'', a), (''2'', b), (''lamp'', c)] =
     [(''0'', a), (''2'', b), (''lamp'', c), (''01'', v)]"
  by (simp_all add: add_property_def before_index_def array_index_def decimal_def)

lemma local_on_failed:
  "res \<noteq> Ok_response () \<Longrightarrow> local_on (toggleLoad_settle loadId currentOn res c) k = local_on c k"
  by (cases res) (simp_all add: toggleLoad_settle_def local_on_def)

text \<open>
  C8, amended. Toggling the fan does nothing. Toggling another load sends the request with
  the negated flag; when the response is ok the local \<open>on\<close> of that load is set to the new
  value, the other loads are untouched and the error is cleared; when the request fails
  the error is set to the command error and every local flag keeps the value it had
  before the toggle: the flag is written only after an ok response, so there is no
  optimistic value to leave or to roll back.
\<close>

theorem toggleLoad_behaviour:
  "toggleLoad_send ''fan'' currentOn c = c \<and>
   (loadId \<noteq> ''fan'' \<longrightarrow>
      toggleLoad_send loadId currentOn c =
        c\<lparr>control_requests := control_requests c @
             [\<lparr>body_loadId = loadId, body_on = JBool (\<not> truthy currentOn)\<rparr>]\<rparr>) \<and>
   (status c = Some st \<and> st_loads st = Some ls \<longrightarrow>
      (\<exists>st' ls' l'.
         status (toggleLoad_settle loadId currentOn (Ok_response ()) c) = Some st' \<and>
         st_loads st' = Some ls' \<and> map_of ls' loadId = Some l' \<and>
         c_on l' = JBool (\<not> truthy currentOn) \<and>
         (\<forall>k. k \<noteq> loadId \<longrightarrow> map_of ls' k = map_of ls k) \<and>
         error (toggleLoad_settle loadId currentOn (Ok_response ()) c) = None)) \<and>
   (res \<noteq> Ok_response () \<longrightarrow>
      toggleLoad_settle loadId currentOn res c = c\<lparr>error := Some ''Failed to send command''\<rparr> \<and>
      (\<forall>k. local_on (toggleLoad_settle loadId currentOn res c) k = local_on c k))"
proof -
  have fan: "toggleLoad_send ''fan'' currentOn c = c"
    by (simp add: toggleLoad_send_def)
  have send: "loadId \<noteq> ''fan'' \<longrightarrow>
     toggleLoad_send loadId currentOn c =
       c\<lparr>control_requests := control_requests c @
            [\<lparr>body_loadId = loadId, body_on = JBool (\<not> truthy currentOn)\<rparr>]\<rparr>"
    by (simp add: toggleLoad_send_def)
  have ok: "status c = Some st \<and> st_loads st = Some ls \<longrightarrow>
     (\<exists>st' ls' l'.
       status (toggleLoad_settle loadId currentOn (Ok_response ()) c) = Some st' \<and>
       st_loads st' = Some ls' \<and> map_of ls' loadId = Some l' \<and>
       c_on l' = JBool (\<not> truthy currentOn) \<and>
       (\<forall>k. k \<noteq> loadId \<longrightarrow> map_of ls' k = map_of ls k) \<and>
       error (toggleLoad_settle loadId currentOn (Ok_response ()) c) = None)"
    by (cases "map_of ls loadId")
       (simp_all add: toggleLoad_settle_def set_local_on_def map_of_put_on on_only_def)
  have failed: "res \<noteq> Ok_response () \<longrightarrow>
     toggleLoad_settle loadId currentOn res c = c\<lparr>error := Some ''Failed to send command''\<rparr> \<and>
     (\<forall>k. local_on (toggleLoad_settle loadId currentOn res c) k = local_on c k)"
    using local_on_failed[of res loadId currentOn c]
    by (cases res) (simp_all add: toggleLoad_settle_def)
  from fan send ok failed show ?thesis by blast
qed

lemma polled_client_status: "status polled_client = Some (snapshot None (seed_state 0))"
  by (simp add: polled_client_def fetchStatus_settle_def mount_def initial_client_def
      fetchStatus_send_def)

lemma polled_client_lamp: "local_on polled_client ''lamp'' = Some (JBool True)"
  by (simp add: local_on_def polled_client_status snapshot_def seed_state_def seed_loads_def
      load_json_def)

theorem toggleLoad_behaviour_witness:
  "toggleLoad_send ''fan'' (JBool False) polled_client = polled_client \<and>
   ''lamp'' \<noteq> ''fan'' \<and>
   control_requests (toggleLoad_send ''lamp'' (JBool True) polled_client) =
     [\<lparr>body_loadId = ''lamp'', body_on = JBool False\<rparr>] \<and>
   status polled_client = Some (snapshot None (seed_state 0)) \<and>
   st_loads (snapshot None (seed_state 0)) =
     Some (map (\<lambda>(k, l). (k, load_json l)) seed_loads) \<and>
   local_on (toggleLoad_settle ''lamp'' (JBool True) (Ok_response ()) polled_client) ''lamp'' =
     Some (JBool False) \<and>
   Http_error 400 \<noteq> Ok_response () \<and>
   status (toggleLoad_settle ''lamp'' (JBool True) (Http_error 400) polled_client) =
     status polled_client \<and>
   local_on (toggleLoad_settle ''lamp'' (JBool True) (Http_error 400) polled_client) ''lamp'' =
     Some (JBool True) \<and>
   error (toggleLoad_settle ''lamp'' (JBool True) (Http_error 400) polled_client) =
     Some ''Failed to send command''"
proof -
  have l: "st_loads (snapshot None (seed_state 0)) =
     Some (map (\<lambda>(k, l). (k, load_json l)) seed_loads)"
    by (simp add: snapshot_def seed_state_def)
  have r: "control_requests polled_client = []"
    by (simp add: polled_client_def fetchStatus_settle_def mount_def initial_client_def
      fetchStatus_send_def)
  have ok: "local_on (toggleLoad_settle ''lamp'' (JBool True) (Ok_response ()) polled_client) ''lamp'' =
     Some (JBool False)"
    by (simp add: local_on_def toggleLoad_settle_def set_local_on_def polled_client_status
        snapshot_def seed_state_def seed_loads_def load_json_def put_on_def)
  show ?thesis
    using toggleLoad_behaviour[of "JBool False" polled_client "''lamp''"
        "snapshot None (seed_state 0)" "map (\<lambda>(k, l). (k, load_json l)) seed_loads" "Http_error 400"]
      toggleLoad_behaviour[of "JBool True" polled_client "''lamp''"
        "snapshot None (seed_state 0)" "map (\<lambda>(k, l). (k, load_json l)) seed_loads" "Http_error 400"]
      polled_client_status polled_client_lamp l r ok
    by auto
qed

text \<open>
  C8, as stated. After a failed request the flag is not the optimistic one: the lamp is
  on, the toggle asks for \<open>on: false\<close>, the answer is 400, and the local flag of the lamp is
  still \<open>true\<close>, not the new value \<open>false\<close>.
\<close>

theorem toggle_failure_counterexample:
  "local_on polled_client ''lamp'' = Some (JBool True) \<and>
   control_requests (toggleLoad_send ''lamp'' (JBool True) polled_client) =
     [\<lparr>body_loadId = ''lamp'', body_on = JBool False\<rparr>] \<and>
   local_on (toggleLoad_settle ''lamp'' (JBool True) (Http_error 400)
               (toggleLoad_send ''lamp'' (JBool True) polled_client)) ''lamp'' = Some (JBool True) \<and>
   local_on (toggleLoad_settle ''lamp'' (JBool True) (Http_error 400)
               (toggleLoad_send ''lamp'' (JBool True) polled_client)) ''lamp'' \<noteq> Some (JBool False) \<and>
   error (toggleLoad_settle ''lamp'' (JBool True) (Http_error 400)
               (toggleLoad_send ''lamp'' (JBool True) polled_client)) =
     Some ''Failed to send command''"
  by (simp add: local_on_def toggleLoad_settle_def toggleLoad_send_def polled_client_def
      fetchStatus_settle_def mount_def initial_client_def fetchStatus_send_def
      snapshot_def seed_state_def seed_loads_def load_json_def)

subsection \<open>The pie chart\<close>

lemma js_add_Fin_iff: "js_add a b = Fin z \<longleftrightarrow> (\<exists>x y. a = Fin x \<and> b = Fin y \<and> z = x + y)"
  by (cases a; cases b) auto

lemma max0_nonneg: "max0 x = Fin r \<Longrightarrow> 0 \<le> r"
  by (cases x) auto

lemma contribution_nonneg: "contribution B v = Some (Fin r) \<Longrightarrow> 0 \<le> r"
  by (auto simp: contribution_def dest: max0_nonneg)

lemma contribution_cases:
  "contribution B v =
     (case v of
        JUndefined \<Rightarrow> Some (Fin 0)
      | JNull \<Rightarrow> Some (Fin 0)
      | JBool b \<Rightarrow> Some (Fin (if b then 1 else 0))
      | JNum x \<Rightarrow>
          Some (case x of Fin r \<Rightarrow> Fin (max 0 r) | PInf \<Rightarrow> PInf | NInf \<Rightarrow> Fin 0 | NaN \<Rightarrow> Fin 0)
      | JStr s \<Rightarrow> Some (if s = [] then Fin 0 else max0 (string_toNumber B s))
      | JArray xs \<Rightarrow> map_option max0 (object_toNumber B v)
      | JObject fs \<Rightarrow> map_option max0 (object_toNumber B v))"
proof (cases v)
  case (JNum x)
  then show ?thesis by (cases x) (simp_all add: contribution_def or_zero_def ToNumber_def)
qed (simp_all add: contribution_def or_zero_def ToNumber_def)

lemma map_entries_Some:
  "map_entries B xs = Some es \<Longrightarrow>
     list_all2 (\<lambda>(k, l) e. e_id e = k \<and> contribution B (c_power_W l) = Some (e_power e)) xs es"
proof (induction xs arbitrary: es)
  case Nil
  then show ?case by simp
next
  case (Cons p xs)
  obtain k l where p: "p = (k, l)" by (cases p)
  from Cons.prems obtain q es' where q: "contribution B (c_power_W l) = Some q"
      and es': "map_entries B xs = Some es'"
      and es: "es = \<lparr>e_id = k,
                     e_name = (case c_name l of None \<Rightarrow> k | Some n \<Rightarrow> if n = [] then k else n),
                     e_power = q\<rparr> # es'"
    by (auto simp: p split: option.splits)
  from Cons.IH[OF es'] q show ?case by (simp add: p es)
qed

lemma map_entries_None:
  "map_entries B xs = None \<longleftrightarrow> (\<exists>(k, l) \<in> set xs. contribution B (c_power_W l) = None)"
  by (induction xs) (auto split: option.splits)

lemma map_entries_finite:
  "list_all2 (\<lambda>(k, l) r. contribution B (c_power_W l) = Some (Fin r)) xs rs \<Longrightarrow>
     \<exists>es. map_entries B xs = Some es \<and> map e_power es = map Fin rs"
proof (induction xs rs rule: list_all2_induct)
  case Nil
  show ?case by simp
next
  case (Cons p r xs rs)
  then show ?case by (cases p) auto
qed

lemma foldl_js_add_Fin:
  "map e_power es = map Fin rs \<Longrightarrow>
     foldl (\<lambda>s e. js_add s (e_power e)) (Fin a) es = Fin (a + sum_list rs)"
proof (induction es arbitrary: rs a)
  case Nil
  then show ?case by simp
next
  case (Cons e es)
  then obtain r rs' where rs: "rs = r # rs'" and e: "e_power e = Fin r"
      and rest: "map e_power es = map Fin rs'"
    by (cases rs) auto
  from Cons.IH[OF rest, of "a + r"] show ?case by (simp add: rs e algebra_simps)
qed

lemma foldl_js_add_Fin_D:
  "foldl (\<lambda>s e. js_add s (e_power e)) a es = Fin T \<Longrightarrow>
     \<exists>x rs. a = Fin x \<and> map e_power es = map Fin rs \<and> T = x + sum_list rs"
proof (induction es arbitrary: a)
  case Nil
  then show ?case by simp
next
  case (Cons e es)
  from Cons.prems have "foldl (\<lambda>s e. js_add s (e_power e)) (js_add a (e_power e)) es = Fin T"
    by simp
  from Cons.IH[OF this] obtain y rs where y: "js_add a (e_power e) = Fin y"
      and rs: "map e_power es = map Fin rs" and T: "T = y + sum_list rs"
    by blast
  from y obtain x r where "a = Fin x" "e_power e = Fin r" "y = x + r"
    by (auto simp: js_add_Fin_iff)
  with rs T have "a = Fin x \<and> map e_power (e # es) = map Fin (r # rs) \<and> T = x + sum_list (r # rs)"
    by simp
  then show ?case by blast
qed

lemma pie_total_Fin: "map e_power es = map Fin rs \<Longrightarrow> pie_total es = Fin (sum_list rs)"
  by (simp add: pie_total_def foldl_js_add_Fin)

lemma pie_total_Fin_D:
  "pie_total es = Fin T \<Longrightarrow> \<exists>rs. map e_power es = map Fin rs \<and> T = sum_list rs"
  unfolding pie_total_def by (drule foldl_js_add_Fin_D) auto

lemma wedge_Fin:
  "wedge (Fin s) (Fin g) =
     [MoveTo (Fin 50) (Fin 50),
      LineTo (Fin (50 + 40 * cos s)) (Fin (50 + 40 * sin s)),
      ArcTo (Fin 40) (Fin 40) 0 (if pi < g then 1 else 0) 1
        (Fin (50 + 40 * cos (s + g))) (Fin (50 + 40 * sin (s + g))),
      ClosePath]"
  by (simp add: wedge_def Let_def)

lemma length_make_slices: "length (make_slices tot a es) = length es"
  by (induction es arbitrary: a) (simp_all add: Let_def)

lemma fraction_make_slices:
  "map fraction (make_slices tot a es) = map (\<lambda>e. js_div (e_power e) tot) es"
  by (induction es arbitrary: a) (simp_all add: Let_def)

lemma fraction_make_slices_Fin:
  assumes "map e_power es = map Fin rs" and "T \<noteq> 0"
  shows "map fraction (make_slices (Fin T) a es) = map (\<lambda>r. Fin (r / T)) rs"
proof -
  have "map (\<lambda>e. js_div (e_power e) (Fin T)) es = map (\<lambda>p. js_div p (Fin T)) (map e_power es)"
    by simp
  also have "\<dots> = map (\<lambda>r. Fin (r / T)) rs"
    using assms(2) by (simp add: assms(1) comp_def)
  finally show ?thesis by (simp add: fraction_make_slices)
qed

lemma pathData_make_slices_Fin:
  "map e_power es = map Fin rs \<Longrightarrow> T \<noteq> 0 \<Longrightarrow> i < length rs \<Longrightarrow>
     pathData (make_slices (Fin T) (Fin a) es ! i) =
       wedge (Fin (a + (\<Sum>r \<leftarrow> take i rs. r / T) * pi * 2)) (Fin (rs ! i / T * pi * 2))"
proof (induction es arbitrary: rs a i)
  case Nil
  then show ?case by simp
next
  case (Cons e es)
  then obtain r rs' where rs: "rs = r # rs'" and e: "e_power e = Fin r"
      and rest: "map e_power es = map Fin rs'"
    by (cases rs) auto
  show ?case
  proof (cases i)
    case 0
    then show ?thesis using Cons.prems(2) by (simp add: Let_def rs e)
  next
    case (Suc j)
    with Cons.prems(3) have j: "j < length rs'" by (simp add: rs)
    from Cons.IH[OF rest Cons.prems(2) j, of "a + r / T * pi * 2"] Suc Cons.prems(2)
    show ?thesis by (simp add: Let_def rs e algebra_simps)
  qed
qed

lemma sum_fractions: "(T :: real) \<noteq> 0 \<Longrightarrow> sum_list rs = T \<Longrightarrow> (\<Sum>r \<leftarrow> rs. r / T) = 1"
proof -
  assume t: "T \<noteq> 0" and s: "sum_list rs = T"
  have "(\<Sum>r \<leftarrow> rs. r / T) = sum_list rs / T"
    by (induction rs) (simp_all add: add_divide_distrib)
  with t s show ?thesis by simp
qed

lemma member_le_sum:
  "(\<And>r. r \<in> set rs \<Longrightarrow> 0 \<le> r) \<Longrightarrow> r \<in> set rs \<Longrightarrow> r \<le> sum_list (rs :: real list)"
proof (induction rs)
  case Nil
  then show ?case by simp
next
  case (Cons x rs)
  have nn: "0 \<le> sum_list rs"
    by (rule sum_list_nonneg) (auto intro: Cons.prems(1))
  have x: "0 \<le> x" by (rule Cons.prems(1)) simp
  show ?case
  proof (cases "r = x")
    case True
    with nn show ?thesis by simp
  next
    case False
    with Cons.prems(2) have "r \<in> set rs" by simp
    then have "r \<le> sum_list rs"
      by (rule Cons.IH[rotated]) (auto intro: Cons.prems(1))
    with x show ?thesis by simp
  qed
qed

lemma sum_take_Suc:
  "i < length rs \<Longrightarrow>
     (\<Sum>r \<leftarrow> take (Suc i) rs. f r) = (\<Sum>r \<leftarrow> take i rs. f r) + (f (rs ! i) :: real)"
  by (simp add: take_Suc_conv_app_nth)

text \<open>
  C6, amended. Let the contribution \<open>Math.max(0, power_W || 0)\<close> of every monitored load
  (every load but the fan) be a finite number, and let \<open>T\<close> be the sum of these
  contributions. When \<open>T\<close> exceeds \<open>0.0001\<close> the chart has one slice per monitored load,
  the fractions of the slices are the contributions divided by \<open>T\<close> and sum to 1 (so to
  within every \<open>\<epsilon>\<close>), and the slices are laid out contiguously from the top: slice \<open>i\<close>
  runs from the centre to the point of the circle at the angle \<open>-\<pi>/2\<close> plus the angles of
  the slices before it, and along the arc to the point at which slice \<open>i + 1\<close> starts; the
  first slice starts at \<open>(50, 10)\<close>, the top of the circle. When \<open>T\<close> is at most
  \<open>0.0001\<close> there is no slice and the placeholder is shown.
\<close>

theorem pie_chart_fractions:
  assumes "list_all2 (\<lambda>(k, l) r. contribution B (c_power_W l) = Some (Fin r))
             (filter (\<lambda>(k, l). k \<noteq> ''fan'') ls) rs"
  shows "(if 0.0001 < sum_list rs
    then \<exists>sl. PowerPieChart B (Some ls) = Chart sl (Fin (sum_list rs)) \<and>
           map fraction sl = map (\<lambda>r. Fin (r / sum_list rs)) rs \<and>
           (\<Sum>r \<leftarrow> rs. r / sum_list rs) = 1 \<and>
           (\<forall>i < length rs.
              pathData (sl ! i) =
                [MoveTo (Fin 50) (Fin 50),
                 LineTo
                   (Fin (50 + 40 * cos (- pi / 2 + (\<Sum>r \<leftarrow> take i rs. r / sum_list rs) * pi * 2)))
                   (Fin (50 + 40 * sin (- pi / 2 + (\<Sum>r \<leftarrow> take i rs. r / sum_list rs) * pi * 2))),
                 ArcTo (Fin 40) (Fin 40) 0
                   (if pi < rs ! i / sum_list rs * pi * 2 then 1 else 0) 1
                   (Fin (50 + 40 *
                      cos (- pi / 2 + (\<Sum>r \<leftarrow> take (Suc i) rs. r / sum_list rs) * pi * 2)))
                   (Fin (50 + 40 *
                      sin (- pi / 2 + (\<Sum>r \<leftarrow> take (Suc i) rs. r / sum_list rs) * pi * 2))),
                 ClosePath]) \<and>
           (rs \<noteq> [] \<longrightarrow> pathData (hd sl) ! 1 = LineTo (Fin 50) (Fin 10))
    else PowerPieChart B (Some ls) = Placeholder)"
proof -
  let ?T = "sum_list rs"
  obtain es where es: "pie_entries B ls = Some es" and pw: "map e_power es = map Fin rs"
    using map_entries_finite[OF assms] by (auto simp: pie_entries_def)
  have tot: "pie_total es = Fin ?T"
    using pw by (rule pie_total_Fin)
  show ?thesis
  proof (cases "0.0001 < ?T")
    case False
    then have "PowerPieChart B (Some ls) = Placeholder"
      by (simp add: PowerPieChart_def es tot Let_def)
    with False show ?thesis by simp
  next
    case True
    then have nz: "?T \<noteq> 0" by simp
    let ?sl = "make_slices (Fin ?T) (Fin (- pi / 2)) es"
    have chart: "PowerPieChart B (Some ls) = Chart ?sl (Fin ?T)"
      using True by (simp add: PowerPieChart_def es tot Let_def)
    have fr: "map fraction ?sl = map (\<lambda>r. Fin (r / ?T)) rs"
      using pw nz by (rule fraction_make_slices_Fin)
    have one: "(\<Sum>r \<leftarrow> rs. r / ?T) = 1"
      using nz by (rule sum_fractions) simp
    have path: "pathData (?sl ! i) =
                [MoveTo (Fin 50) (Fin 50),
                 LineTo
                   (Fin (50 + 40 * cos (- pi / 2 + (\<Sum>r \<leftarrow> take i rs. r / ?T) * pi * 2)))
                   (Fin (50 + 40 * sin (- pi / 2 + (\<Sum>r \<leftarrow> take i rs. r / ?T) * pi * 2))),
                 ArcTo (Fin 40) (Fin 40) 0
                   (if pi < rs ! i / ?T * pi * 2 then 1 else 0) 1
                   (Fin (50 + 40 *
                      cos (- pi / 2 + (\<Sum>r \<leftarrow> take (Suc i) rs. r / ?T) * pi * 2)))
                   (Fin (50 + 40 *
                      sin (- pi / 2 + (\<Sum>r \<leftarrow> take (Suc i) rs. r / ?T) * pi * 2))),
                 ClosePath]" if i: "i < length rs" for i
    proof -
      have e: "- pi / 2 + (\<Sum>r \<leftarrow> take (Suc i) rs. r / ?T) * pi * 2 =
          - pi / 2 + (\<Sum>r \<leftarrow> take i rs. r / ?T) * pi * 2 + rs ! i / ?T * pi * 2"
        by (simp only: sum_take_Suc[OF i]) (simp add: algebra_simps)
      show ?thesis
        unfolding pathData_make_slices_Fin[OF pw nz i] wedge_Fin e ..
    qed
    have top: "pathData (hd ?sl) ! 1 = LineTo (Fin 50) (Fin 10)" if "rs \<noteq> []"
    proof -
      from that have i: "0 < length rs" by simp
      moreover have "length es = length rs"
        using pw by (metis length_map)
      ultimately have "length ?sl \<noteq> 0" by (simp add: length_make_slices)
      then have "?sl \<noteq> []" by (simp only: length_0_conv not_False_eq_True)
      then have "hd ?sl = ?sl ! 0" by (simp add: hd_conv_nth)
      with path[OF i] show ?thesis by simp
    qed
    from chart fr one path top
    have "\<exists>sl. PowerPieChart B (Some ls) = Chart sl (Fin ?T) \<and>
           map fraction sl = map (\<lambda>r. Fin (r / ?T)) rs \<and>
           (\<Sum>r \<leftarrow> rs. r / ?T) = 1 \<and>
           (\<forall>i < length rs.
              pathData (sl ! i) =
                [MoveTo (Fin 50) (Fin 50),
                 LineTo
                   (Fin (50 + 40 * cos (- pi / 2 + (\<Sum>r \<leftarrow> take i rs. r / ?T) * pi * 2)))
                   (Fin (50 + 40 * sin (- pi / 2 + (\<Sum>r \<leftarrow> take i rs. r / ?T) * pi * 2))),
                 ArcTo (Fin 40) (Fin 40) 0
                   (if pi < rs ! i / ?T * pi * 2 then 1 else 0) 1
                   (Fin (50 + 40 *
                      cos (- pi / 2 + (\<Sum>r \<leftarrow> take (Suc i) rs. r / ?T) * pi * 2)))
                   (Fin (50 + 40 *
                      sin (- pi / 2 + (\<Sum>r \<leftarrow> take (Suc i) rs. r / ?T) * pi * 2))),
                 ClosePath]) \<and>
           (rs \<noteq> [] \<longrightarrow> pathData (hd sl) ! 1 = LineTo (Fin 50) (Fin 10))"
      by blast
    with True show ?thesis by simp
  qed
qed

text \<open>The seed state: the lamp takes five sixths of the circle from the top, along the
  large arc; the charger the sixth that follows, back to the top.\<close>

theorem pie_chart_fractions_witness:
  "list_all2 (\<lambda>(k, l) r. contribution example_builtins (c_power_W l) = Some (Fin r))
     (filter (\<lambda>(k, l). k \<noteq> ''fan'') (map (\<lambda>(k, l). (k, load_json l)) seed_loads)) [30, 6] \<and>
   (0.0001 :: real) < sum_list [30, 6] \<and>
   (\<exists>sl. PowerPieChart example_builtins (Some (map (\<lambda>(k, l). (k, load_json l)) seed_loads)) =
           Chart sl (Fin 36) \<and>
         map fraction sl = [Fin (5 / 6), Fin (1 / 6)] \<and>
         (5 / 6 + 1 / 6 :: real) = 1 \<and>
         pathData (sl ! 0) =
           [MoveTo (Fin 50) (Fin 50), LineTo (Fin 50) (Fin 10),
            ArcTo (Fin 40) (Fin 40) 0 1 1
              (Fin (50 + 40 * cos (- pi / 2 + 5 / 6 * pi * 2)))
              (Fin (50 + 40 * sin (- pi / 2 + 5 / 6 * pi * 2))),
            ClosePath] \<and>
         pathData (sl ! 1) =
           [MoveTo (Fin 50) (Fin 50),
            LineTo (Fin (50 + 40 * cos (- pi / 2 + 5 / 6 * pi * 2)))
                   (Fin (50 + 40 * sin (- pi / 2 + 5 / 6 * pi * 2))),
            ArcTo (Fin 40) (Fin 40) 0 0 1 (Fin 50) (Fin 10),
            ClosePath])"
proof -
  let ?ls = "map (\<lambda>(k, l). (k, load_json l)) seed_loads"
  have h: "list_all2 (\<lambda>(k, l) r. contribution example_builtins (c_power_W l) = Some (Fin r))
     (filter (\<lambda>(k, l). k \<noteq> ''fan'') ?ls) [30, 6]"
    by (simp add: seed_loads_def load_json_def contribution_cases)
  have large: "pi < 5 / 6 * pi * 2" and small: "\<not> pi < 1 / 6 * pi * 2"
    using pi_gt_zero by simp_all
  have full: "cos (- pi / 2 + (5 / 6 + 1 / 6) * pi * 2) = 0"
    "sin (- pi / 2 + (5 / 6 + 1 / 6) * pi * 2) = - 1"
  proof -
    have "- pi / 2 + (5 / 6 + 1 / 6) * pi * 2 = - pi / 2 + 2 * pi" by simp
    then show "cos (- pi / 2 + (5 / 6 + 1 / 6) * pi * 2) = 0"
      "sin (- pi / 2 + (5 / 6 + 1 / 6) * pi * 2) = - 1"
      by (simp_all only: cos_periodic sin_periodic) simp_all
  qed
  from pie_chart_fractions[OF h]
  obtain sl where sl: "PowerPieChart example_builtins (Some ?ls) = Chart sl (Fin 36)"
      "map fraction sl = [Fin (5 / 6), Fin (1 / 6)]"
      and p: "\<forall>i < 2. pathData (sl ! i) =
                [MoveTo (Fin 50) (Fin 50),
                 LineTo
                   (Fin (50 + 40 * cos (- pi / 2 + (\<Sum>r \<leftarrow> take i [30, 6 :: real]. r / 36) * pi * 2)))
                   (Fin (50 + 40 * sin (- pi / 2 + (\<Sum>r \<leftarrow> take i [30, 6 :: real]. r / 36) * pi * 2))),
                 ArcTo (Fin 40) (Fin 40) 0
                   (if pi < [30, 6] ! i / 36 * pi * 2 then 1 else 0) 1
                   (Fin (50 + 40 *
                      cos (- pi / 2 + (\<Sum>r \<leftarrow> take (Suc i) [30, 6 :: real]. r / 36) * pi * 2)))
                   (Fin (50 + 40 *
                      sin (- pi / 2 + (\<Sum>r \<leftarrow> take (Suc i) [30, 6 :: real]. r / 36) * pi * 2))),
                 ClosePath]"
    by auto
  from p[rule_format, of 0] large have p0: "pathData (sl ! 0) =
           [MoveTo (Fin 50) (Fin 50), LineTo (Fin 50) (Fin 10),
            ArcTo (Fin 40) (Fin 40) 0 1 1
              (Fin (50 + 40 * cos (- pi / 2 + 5 / 6 * pi * 2)))
              (Fin (50 + 40 * sin (- pi / 2 + 5 / 6 * pi * 2))),
            ClosePath]"
    by simp
  from p[rule_format, of 1] small full have p1: "pathData (sl ! 1) =
           [MoveTo (Fin 50) (Fin 50),
            LineTo (Fin (50 + 40 * cos (- pi / 2 + 5 / 6 * pi * 2)))
                   (Fin (50 + 40 * sin (- pi / 2 + 5 / 6 * pi * 2))),
            ArcTo (Fin 40) (Fin 40) 0 0 1 (Fin 50) (Fin 10),
            ClosePath]"
    by (simp add: numeral_2_eq_2 take_Suc_conv_app_nth)
  from h sl p0 p1 show ?thesis by auto
qed

text \<open>
  C6, as stated. The condition is not on the total power of the monitored loads: with the
  lamp at \<open>-5\<close> W and the charger at 3 W that total is \<open>-2\<close>, at most \<open>0.0001\<close>, and two
  slices are drawn, for a clamped total of 3. And a total above \<open>0.0001\<close> does not make the
  fractions sum to 1: with a lamp at \<open>Infinity\<close> the total is \<open>Infinity\<close> and the fraction
  of the one slice is \<open>NaN\<close>.
\<close>

theorem pie_raw_total_counterexample:
  "(- 5 + 3 :: real) \<le> 0.0001 \<and>
   PowerPieChart example_builtins
       (Some [(''lamp'', bare_load (JNum (Fin (- 5)))), (''charger'', bare_load (JNum (Fin 3)))]) =
     Chart [\<lparr>pathData = wedge (Fin (- pi / 2)) (Fin 0), color = Own ''#f97316'',
              label = ''lamp'', slice_value = Fin 0, fraction = Fin 0, key = ''lamp''\<rparr>,
            \<lparr>pathData = wedge (Fin (- pi / 2)) (Fin (pi * 2)), color = Own ''#22c55e'',
              label = ''charger'', slice_value = Fin 3, fraction = Fin 1, key = ''charger''\<rparr>]
           (Fin 3) \<and>
   js_less (Fin 0.0001) PInf \<and>
   PowerPieChart example_builtins (Some [(''lamp'', bare_load (JNum PInf))]) =
     Chart [\<lparr>pathData = wedge (Fin (- pi / 2)) NaN, color = Own ''#f97316'',
              label = ''lamp'', slice_value = PInf, fraction = NaN, key = ''lamp''\<rparr>] PInf"
  by (simp add: PowerPieChart_def bare_load_def pie_entries_def pie_total_def Let_def
      get_property_def colors_def contribution_cases)

text \<open>
  C10, as stated. A \<open>power_W\<close> that is not a number is not always counted as 0: \<open>true\<close> is
  truthy, so \<open>true || 0\<close> is \<open>true\<close> and \<open>Math.max(0, true)\<close> is 1; a lamp with
  \<open>power_W: true\<close> gets a slice of value 1. And not every fraction lies between 0 and 1:
  a lamp at \<open>Infinity\<close> gets the fraction \<open>NaN\<close>.
\<close>

theorem pie_boolean_power_counterexample:
  "pie_entries example_builtins [(''lamp'', bare_load (JBool True))] =
     Some [\<lparr>e_id = ''lamp'', e_name = ''lamp'', e_power = Fin 1\<rparr>] \<and>
   Fin 1 \<noteq> Fin 0 \<and>
   PowerPieChart example_builtins (Some [(''lamp'', bare_load (JBool True))]) =
     Chart [\<lparr>pathData = wedge (Fin (- pi / 2)) (Fin (pi * 2)), color = Own ''#f97316'',
              label = ''lamp'', slice_value = Fin 1, fraction = Fin 1, key = ''lamp''\<rparr>] (Fin 1) \<and>
   PowerPieChart example_builtins (Some [(''lamp'', bare_load (JNum PInf))]) =
     Chart [\<lparr>pathData = wedge (Fin (- pi / 2)) NaN, color = Own ''#f97316'',
              label = ''lamp'', slice_value = PInf, fraction = NaN, key = ''lamp''\<rparr>] PInf"
  by (simp add: PowerPieChart_def bare_load_def pie_entries_def pie_total_def Let_def
      get_property_def colors_def contribution_cases)

text \<open>Every power of an entry is the contribution of some value.\<close>

lemma map_entries_power:
  "map_entries B xs = Some es \<Longrightarrow> e \<in> set es \<Longrightarrow> \<exists>v. contribution B v = Some (e_power e)"
proof (induction xs arbitrary: es)
  case Nil
  then show ?case by simp
next
  case (Cons p xs)
  obtain k l where p: "p = (k, l)" by (cases p)
  from Cons.prems(1) obtain q es' where q: "contribution B (c_power_W l) = Some q"
      and es': "map_entries B xs = Some es'"
      and es: "es = \<lparr>e_id = k,
                     e_name = (case c_name l of None \<Rightarrow> k | Some n \<Rightarrow> if n = [] then k else n),
                     e_power = q\<rparr> # es'"
    by (auto simp: p split: option.splits)
  show ?case
  proof (cases "e \<in> set es'")
    case True
    with Cons.IH[OF es'] show ?thesis .
  next
    case False
    with Cons.prems(2) es have "e_power e = q" by auto
    with q show ?thesis by blast
  qed
qed

text \<open>
  C10, amended. The contribution \<open>Math.max(0, power_W || 0)\<close> of a load is: 0 for a
  \<open>power_W\<close> that is missing, \<open>null\<close>, \<open>false\<close>, 0, \<open>NaN\<close>, \<open>-Infinity\<close> or the empty
  string; 1 for \<open>true\<close>; \<open>max(0, power_W)\<close> for a finite number; \<open>Infinity\<close> for
  \<open>Infinity\<close>; and for a non-empty string, an array or an object the maximum of 0 and the
  number it converts to, which is \<open>NaN\<close> when that number is \<open>NaN\<close>. The entries of the
  chart carry these contributions for the loads other than the fan, unless a conversion
  throws, and then nothing is rendered. Whenever slices are produced with a finite total,
  the total exceeds \<open>0.0001\<close> and the fraction of every slice is a number between 0 and 1.
\<close>

theorem pie_contributions:
  "contribution B v =
     (case v of
        JUndefined \<Rightarrow> Some (Fin 0)
      | JNull \<Rightarrow> Some (Fin 0)
      | JBool b \<Rightarrow> Some (Fin (if b then 1 else 0))
      | JNum x \<Rightarrow>
          Some (case x of Fin r \<Rightarrow> Fin (max 0 r) | PInf \<Rightarrow> PInf | NInf \<Rightarrow> Fin 0 | NaN \<Rightarrow> Fin 0)
      | JStr s \<Rightarrow> Some (if s = [] then Fin 0 else max0 (string_toNumber B s))
      | JArray xs \<Rightarrow> map_option max0 (object_toNumber B v)
      | JObject fs \<Rightarrow> map_option max0 (object_toNumber B v)) \<and>
   (case pie_entries B ls of
      None \<Rightarrow>
        PowerPieChart B (Some ls) = Threw \<and>
        (\<exists>(k, l) \<in> set ls. k \<noteq> ''fan'' \<and> contribution B (c_power_W l) = None)
    | Some es \<Rightarrow>
        list_all2 (\<lambda>(k, l) e. e_id e = k \<and> contribution B (c_power_W l) = Some (e_power e))
          (filter (\<lambda>(k, l). k \<noteq> ''fan'') ls) es) \<and>
   (\<forall>sl T. PowerPieChart B (Some ls) = Chart sl (Fin T) \<longrightarrow>
      0.0001 < T \<and>
      (\<forall>s \<in> set sl. \<exists>f. fraction s = Fin f \<and> 0 \<le> f \<and> f \<le> 1))"
proof -
  have entries: "(case pie_entries B ls of
      None \<Rightarrow>
        PowerPieChart B (Some ls) = Threw \<and>
        (\<exists>(k, l) \<in> set ls. k \<noteq> ''fan'' \<and> contribution B (c_power_W l) = None)
    | Some es \<Rightarrow>
        list_all2 (\<lambda>(k, l) e. e_id e = k \<and> contribution B (c_power_W l) = Some (e_power e))
          (filter (\<lambda>(k, l). k \<noteq> ''fan'') ls) es)"
  proof (cases "pie_entries B ls")
    case None
    then have "\<exists>(k, l) \<in> set (filter (\<lambda>(k, l). k \<noteq> ''fan'') ls).
        contribution B (c_power_W l) = None"
      by (simp add: pie_entries_def map_entries_None)
    then have "\<exists>(k, l) \<in> set ls. k \<noteq> ''fan'' \<and> contribution B (c_power_W l) = None"
      by auto
    with None show ?thesis by (simp add: PowerPieChart_def)
  next
    case (Some es)
    then show ?thesis by (simp add: pie_entries_def map_entries_Some)
  qed
  have frac: "0.0001 < T \<and> (\<forall>s \<in> set sl. \<exists>f. fraction s = Fin f \<and> 0 \<le> f \<and> f \<le> 1)"
    if chart: "PowerPieChart B (Some ls) = Chart sl (Fin T)" for sl T
  proof -
    from chart obtain es where es: "pie_entries B ls = Some es"
      and tot: "pie_total es = Fin T" and pos: "\<not> js_le (Fin T) (Fin 0.0001)"
      and sl: "sl = make_slices (Fin T) (Fin (- pi / 2)) es"
      by (auto simp: PowerPieChart_def Let_def split: option.splits if_splits)
    from pos have T: "0.0001 < T" by simp
    obtain rs where pw: "map e_power es = map Fin rs" and sum: "T = sum_list rs"
      using pie_total_Fin_D[OF tot] by blast
    have nn: "0 \<le> r" if "r \<in> set rs" for r
    proof -
      from that have "Fin r \<in> set (map e_power es)" by (simp add: pw)
      then obtain e where e: "e \<in> set es" "e_power e = Fin r" by auto
      from es e(1) obtain v where "contribution B v = Some (e_power e)"
        using map_entries_power[of B _ es e] by (auto simp: pie_entries_def)
      with e(2) show ?thesis by (auto dest: contribution_nonneg)
    qed
    have fr: "map fraction sl = map (\<lambda>r. Fin (r / T)) rs"
      unfolding sl using pw T by (intro fraction_make_slices_Fin) simp_all
    have "\<exists>f. fraction s = Fin f \<and> 0 \<le> f \<and> f \<le> 1" if "s \<in> set sl" for s
    proof -
      from that have "fraction s \<in> set (map (\<lambda>r. Fin (r / T)) rs)"
        unfolding fr[symmetric] by simp
      then obtain r where r: "r \<in> set rs" "fraction s = Fin (r / T)" by auto
      have "0 \<le> r" using r(1) by (rule nn)
      moreover have "r \<le> T" unfolding sum using nn r(1) by (intro member_le_sum)
      ultimately show ?thesis using T r(2) by simp
    qed
    with T show ?thesis by blast
  qed
  from contribution_cases[of B v] entries frac show ?thesis by blast
qed

text \<open>A negative and a missing \<open>power_W\<close> next to a heater at 10 W and a fan that is left
  out.\<close>

theorem pie_contributions_witness:
  "PowerPieChart example_builtins
       (Some [(''lamp'', bare_load (JNum (Fin (- 5)))), (''charger'', bare_load JUndefined),
              (''heater'', bare_load (JNum (Fin 10))), (''fan'', bare_load (JNum (Fin 99)))]) =
     Chart [\<lparr>pathData = wedge (Fin (- pi / 2)) (Fin 0), color = Own ''#f97316'',
              label = ''lamp'', slice_value = Fin 0, fraction = Fin 0, key = ''lamp''\<rparr>,
            \<lparr>pathData = wedge (Fin (- pi / 2)) (Fin 0), color = Own ''#22c55e'',
              label = ''charger'', slice_value = Fin 0, fraction = Fin 0, key = ''charger''\<rparr>,
            \<lparr>pathData = wedge (Fin (- pi / 2)) (Fin (pi * 2)), color = Own ''#e5e7eb'',
              label = ''heater'', slice_value = Fin 10, fraction = Fin 1, key = ''heater''\<rparr>]
           (Fin 10) \<and>
   (0.0001 :: real) < 10 \<and> (0 :: real) \<le> 1"
proof -
  let ?ls = "[(''lamp'', bare_load (JNum (Fin (- 5)))), (''charger'', bare_load JUndefined),
              (''heater'', bare_load (JNum (Fin 10))), (''fan'', bare_load (JNum (Fin 99)))]"
  have ev: "PowerPieChart example_builtins (Some ?ls) =
     Chart [\<lparr>pathData = wedge (Fin (- pi / 2)) (Fin 0), color = Own ''#f97316'',
              label = ''lamp'', slice_value = Fin 0, fraction = Fin 0, key = ''lamp''\<rparr>,
            \<lparr>pathData = wedge (Fin (- pi / 2)) (Fin 0), color = Own ''#22c55e'',
              label = ''charger'', slice_value = Fin 0, fraction = Fin 0, key = ''charger''\<rparr>,
            \<lparr>pathData = wedge (Fin (- pi / 2)) (Fin (pi * 2)), color = Own ''#e5e7eb'',
              label = ''heater'', slice_value = Fin 10, fraction = Fin 1, key = ''heater''\<rparr>]
           (Fin 10)"
    by (simp add: PowerPieChart_def bare_load_def pie_entries_def pie_total_def Let_def
        get_property_def colors_def object_prototype_keys_def contribution_cases)
  show ?thesis
    using pie_contributions[of example_builtins JNull ?ls] ev
    by simp
qed

end
